theory Spec2Isabelle
  imports Main "HOL-Library.AList"
begin

section \<open>Python values used by TOA.py\<close>

text \<open>
  A Python \<open>str\<close> is a sequence of Unicode code points; a code point is a natural number
  here, so that the one-character string \<open>\<epsilon>\<close> (U+03B5) has length 1 as it has in Python.
  \<open>str\<close> turns an ASCII literal into such a string.
\<close>

type_synonym codepoint = nat
type_synonym pystr = "codepoint list"

definition str :: "string \<Rightarrow> pystr" where
  "str s = map of_char s"

text \<open>
  A Python \<open>set\<close> is a list of its members in iteration order. Python leaves that order
  unspecified; the model inserts at the end, and the theorems below speak about
  membership (\<open>set\<close>) only. A Python \<open>dict\<close> is an association list in insertion order:
  \<open>map_of\<close> is the lookup, \<open>AList.update\<close> the assignment \<open>d[k] = v\<close>.
\<close>

definition pyset :: "'a list \<Rightarrow> 'a list" where
  "pyset xs = remdups xs"

definition pyset_add :: "'a \<Rightarrow> 'a list \<Rightarrow> 'a list" where
  "pyset_add x s = (if x \<in> set s then s else s @ [x])"

definition pyset_update :: "'a list \<Rightarrow> 'a list \<Rightarrow> 'a list" where
  "pyset_update s xs = fold pyset_add xs s"

definition isdisjoint :: "'a list \<Rightarrow> 'a list \<Rightarrow> bool" where
  "isdisjoint a b = (filter (\<lambda>x. x \<in> set b) a = [])"

definition issubset :: "'a list \<Rightarrow> 'a list \<Rightarrow> bool" where
  "issubset a b = (filter (\<lambda>x. x \<notin> set b) a = [])"

definition intersection :: "'a list \<Rightarrow> 'a list \<Rightarrow> 'a list" where
  "intersection a b = filter (\<lambda>x. x \<in> set b) a"

definition dict_get :: "('k \<times> 'v) list \<Rightarrow> 'k \<Rightarrow> 'v \<Rightarrow> 'v" where
  "dict_get d k dflt = (case map_of d k of None \<Rightarrow> dflt | Some v \<Rightarrow> v)"

text \<open>
  \<open>str.strip()\<close> removes the characters for which \<open>str.isspace()\<close> holds from both ends.
\<close>

definition isspace :: "codepoint \<Rightarrow> bool" where
  "isspace c =
     ((9 \<le> c \<and> c \<le> 13) \<or> (28 \<le> c \<and> c \<le> 32) \<or> c = 133 \<or> c = 160 \<or> c = 5760 \<or>
      (8192 \<le> c \<and> c \<le> 8202) \<or> c = 8232 \<or> c = 8233 \<or> c = 8239 \<or> c = 8287 \<or> c = 12288)"

definition strip :: "pystr \<Rightarrow> pystr" where
  "strip s = rev (dropWhile isspace (rev (dropWhile isspace s)))"

definition startswith :: "pystr \<Rightarrow> pystr \<Rightarrow> bool" where
  "startswith s p = (take (length p) s = p)"

text \<open>
  \<open>str.lower()\<close>. The code points whose lower-case form contains an ASCII character are
  \<open>A\<close> to \<open>Z\<close>, U+0130 and U+212A; every other code point is mapped by Python to code
  points outside ASCII and is left as it is here. TOA.py only compares the result with
  the ASCII string \<open>epsilon\<close>, and that comparison is the same for both.
\<close>

definition lower_cp :: "codepoint \<Rightarrow> pystr" where
  "lower_cp c =
     (if 65 \<le> c \<and> c \<le> 90 then [c + 32]
      else if c = 304 then [105, 775]
      else if c = 8490 then [107]
      else [c])"

definition lower :: "pystr \<Rightarrow> pystr" where
  "lower s = concat (map lower_cp s)"

text \<open>
  \<open>split_once sep s\<close> is \<open>None\<close> when \<open>sep not in s\<close> and otherwise the two parts of
  \<open>s.split(sep, 1)\<close>; \<open>split_char c s\<close> is \<open>s.split(c)\<close> for a one-character separator.
\<close>

fun split_once :: "pystr \<Rightarrow> pystr \<Rightarrow> (pystr \<times> pystr) option" where
  "split_once sep [] = (if sep = [] then Some ([], []) else None)"
| "split_once sep (c # cs) =
     (if startswith (c # cs) sep then Some ([], drop (length sep) (c # cs))
      else (case split_once sep cs of
              None \<Rightarrow> None
            | Some (h, b) \<Rightarrow> Some (c # h, b)))"

fun split_char :: "codepoint \<Rightarrow> pystr \<Rightarrow> pystr list" where
  "split_char sep [] = [[]]"
| "split_char sep (c # cs) =
     (if c = sep then [] # split_char sep cs
      else (case split_char sep cs of
              [] \<Rightarrow> [[c]]
            | p # ps \<Rightarrow> (c # p) # ps))"

section \<open>Errors\<close>

text \<open>
  Every \<open>raise\<close> of TOA.py is a value: the exception class and what the message reports.
  \<open>UnicodeEncodeError\<close> is what a \<open>print\<close> raises when standard output cannot encode its
  text; in Python it is a subclass of \<open>ValueError\<close>.
\<close>

datatype message =
    Non_terminal_set_empty
  | Start_symbol_not_declared pystr
  | Terminals_non_terminals_overlap "pystr list"
  | Missing_arrow nat pystr
  | Empty_head nat
  | Head_not_declared nat pystr
  | Empty_production nat pystr
  | Terminal_not_declared nat pystr pystr pystr
  | Non_terminal_not_declared nat pystr pystr pystr
  | Invalid_production_format nat pystr pystr
  | Unexpected_production_format nat pystr pystr
  | Final_marker_clash
  | Unexpected_parsed_production "pystr option" "pystr option" pystr
  | Start_state_not_in_states pystr
  | Accept_states_not_subset "pystr list"
  | Symbol_not_in_alphabet pystr

datatype error = ValueError message | RuntimeError message | UnicodeEncodeError

section \<open>Standard output\<close>

text \<open>
  The \<open>print\<close> statements of the acceptance check, each with the values it formats: the
  warning of \<open>accepts\<close> (line 69: the symbol and the alphabet) and the two result lines of
  \<open>main\<close> (line 296: the input string and its invalid symbols; line 301: the input string
  and whether it is accepted).
\<close>

datatype printed =
    Warning_symbol_not_in_alphabet pystr "pystr list"
  | String_rejected_invalid_symbols pystr "pystr list"
  | String_result pystr bool

text \<open>
  Standard output is an open text stream: \<open>written\<close> is what has been printed so far, and
  \<open>encodes\<close> says of each text whether the encoding of the stream can encode it. The
  encoding belongs to the environment and is a parameter here. \<open>print\<close> encodes the whole
  text before it writes any of it: it either appends the text or raises
  \<open>UnicodeEncodeError\<close> and leaves the stream as it was.
\<close>

record stdout =
  encodes :: "printed \<Rightarrow> bool"
  written :: "printed list"

definition print :: "printed \<Rightarrow> stdout \<Rightarrow> (error + unit) \<times> stdout" where
  "print line out =
     (if encodes out line then (Inr (), out\<lparr>written := written out @ [line]\<rparr>)
      else (Inl UnicodeEncodeError, out))"

section \<open>class NFA\<close>

type_synonym nfa_transitions = "((pystr \<times> pystr option) \<times> pystr list) list"

record NFA =
  states :: "pystr list"
  alphabet :: "pystr list"
  transitions :: nfa_transitions
  start_state :: pystr
  accept_states :: "pystr list"
  epsilon_closures :: "(pystr \<times> pystr list) list"

text \<open>
  The body of the \<open>for neighbor in epsilon_neighbors\<close> loop of
  \<open>_compute_epsilon_closure\<close>, on the triple (visited, closure, queue).
\<close>

fun visit_neighbors ::
  "pystr list \<Rightarrow> pystr list \<times> pystr list \<times> pystr list \<Rightarrow>
   pystr list \<times> pystr list \<times> pystr list" where
  "visit_neighbors [] st = st"
| "visit_neighbors (neighbor # ns) (visited, closure, queue) =
     (if neighbor \<notin> set visited
      then visit_neighbors ns
             (pyset_add neighbor visited, pyset_add neighbor closure, queue @ [neighbor])
      else visit_neighbors ns (visited, closure, queue))"

definition targets :: "nfa_transitions \<Rightarrow> pystr set" where
  "targets T = \<Union> (set ` snd ` set T)"

lemma finite_targets: "finite (targets T)"
  by (simp add: targets_def)

lemma dict_get_targets: "set (dict_get T k []) \<subseteq> targets T"
proof (cases "map_of T k")
  case None
  then show ?thesis by (simp add: dict_get_def)
next
  case (Some ns)
  then have "(k, ns) \<in> set T" by (rule map_of_SomeD)
  then have "set ns \<subseteq> targets T" by (force simp: targets_def)
  with Some show ?thesis by (simp add: dict_get_def)
qed

lemma visit_neighbors_measure:
  "set ns \<subseteq> U \<Longrightarrow> finite U \<Longrightarrow> visit_neighbors ns (v, c, q) = (v', c', q') \<Longrightarrow>
   2 * card (U - set v') + length q' \<le> 2 * card (U - set v) + length q"
proof (induction ns arbitrary: v c q)
  case Nil
  then show ?case by simp
next
  case (Cons n ns)
  show ?case
  proof (cases "n \<in> set v")
    case True
    with Cons show ?thesis by simp
  next
    case False
    from Cons.prems False have step:
      "visit_neighbors ns (pyset_add n v, pyset_add n c, q @ [n]) = (v', c', q')" by simp
    from Cons.prems have "set ns \<subseteq> U" by simp
    from Cons.IH [OF this Cons.prems(2) step]
    have le: "2 * card (U - set (pyset_add n v)) + length (q @ [n])
                \<le> 2 * card (U - set v) + length q \<Longrightarrow> ?thesis"
      by linarith
    from Cons.prems False have nU: "n \<in> U - set v" by simp
    have "U - set (pyset_add n v) = (U - set v) - {n}"
      using False by (auto simp: pyset_add_def)
    then have "card (U - set (pyset_add n v)) = card (U - set v) - 1"
      using nU by simp
    moreover have "card (U - set v) > 0"
      using nU Cons.prems(2) by (metis card_gt_0_iff empty_iff finite_Diff)
    ultimately show ?thesis using le by simp
  qed
qed

text \<open>
  The \<open>while queue\<close> loop of \<open>_compute_epsilon_closure\<close>. It ends because every pass
  takes one state off the queue and every state is put on the queue at most once.
\<close>

function bfs_loop ::
  "nfa_transitions \<Rightarrow> pystr list \<times> pystr list \<times> pystr list \<Rightarrow> pystr list" where
  "bfs_loop T (visited, closure, []) = closure"
| "bfs_loop T (visited, closure, current_state # queue) =
     bfs_loop T (visit_neighbors (dict_get T (current_state, None) []) (visited, closure, queue))"
  by pat_completeness auto
termination
proof (relation "measure (\<lambda>(T, visited, closure, queue).
                   2 * card (targets T - set visited) + length queue)")
  fix T :: nfa_transitions and visited closure current_state queue
  obtain v' c' q' where
    eq: "visit_neighbors (dict_get T (current_state, None) []) (visited, closure, queue)
           = (v', c', q')"
    by (cases "visit_neighbors (dict_get T (current_state, None) []) (visited, closure, queue)")
  from visit_neighbors_measure [OF dict_get_targets finite_targets eq]
  show "((T, visit_neighbors (dict_get T (current_state, None) []) (visited, closure, queue)),
         T, visited, closure, current_state # queue)
       \<in> measure (\<lambda>(T, visited, closure, queue).
                    2 * card (targets T - set visited) + length queue)"
    by (simp add: eq)
qed simp

declare bfs_loop.simps [simp del]

text \<open>
  \<open>_compute_epsilon_closure\<close> returns the closure and the automaton with its cache
  \<open>_epsilon_closures\<close> updated; a cached state is answered from the cache.
\<close>

definition compute_epsilon_closure :: "pystr \<Rightarrow> NFA \<Rightarrow> pystr list \<times> NFA" where
  "compute_epsilon_closure state self =
     (case map_of (epsilon_closures self) state of
        Some cached \<Rightarrow> (cached, self)
      | None \<Rightarrow>
          (let closure = bfs_loop (transitions self) ([state], [state], [state])
           in (closure,
               self\<lparr>epsilon_closures := AList.update state closure (epsilon_closures self)\<rparr>)))"

definition compute_all_epsilon_closures :: "NFA \<Rightarrow> NFA" where
  "compute_all_epsilon_closures self =
     fold (\<lambda>state nfa. snd (compute_epsilon_closure state nfa)) (states self) self"

text \<open>
  The loop of \<open>__init__\<close> over the keys of the transition table: the first symbol that
  is neither \<open>None\<close> nor in the alphabet raises.
\<close>

fun check_transition_symbols :: "(pystr \<times> pystr option) list \<Rightarrow> pystr list \<Rightarrow> error option" where
  "check_transition_symbols [] alph = None"
| "check_transition_symbols ((_, None) # ks) alph = check_transition_symbols ks alph"
| "check_transition_symbols ((_, Some symbol) # ks) alph =
     (if symbol \<notin> set alph then Some (ValueError (Symbol_not_in_alphabet symbol))
      else check_transition_symbols ks alph)"

definition NFA_init ::
  "pystr list \<Rightarrow> pystr list \<Rightarrow> nfa_transitions \<Rightarrow> pystr \<Rightarrow> pystr list \<Rightarrow> error + NFA" where
  "NFA_init sts alph trns start accept =
     (let self = \<lparr>states = pyset sts, alphabet = pyset alph, transitions = trns,
                  start_state = start, accept_states = pyset accept, epsilon_closures = []\<rparr>
      in if start_state self \<notin> set (states self)
         then Inl (ValueError (Start_state_not_in_states (start_state self)))
         else if \<not> issubset (accept_states self) (states self)
         then Inl (ValueError (Accept_states_not_subset (accept_states self)))
         else (case check_transition_symbols (map fst (transitions self)) (alphabet self) of
                 Some e \<Rightarrow> Inl e
               | None \<Rightarrow> Inr (compute_all_epsilon_closures self)))"

text \<open>
  \<open>_get_epsilon_closure_set\<close> and \<open>accepts\<close> are methods of the mutable object: they
  return their result together with the automaton they leave behind. \<open>accepts\<close> also
  prints: it takes standard output and returns it, and its result is the boolean it
  returns or the exception that its \<open>print\<close> raises.
\<close>

definition get_epsilon_closure_set :: "pystr list \<Rightarrow> NFA \<Rightarrow> pystr list \<times> NFA" where
  "get_epsilon_closure_set states_set self =
     (fold (\<lambda>s full_closure. pyset_update full_closure (dict_get (epsilon_closures self) s [s]))
        states_set [],
      self)"

definition next_states :: "pystr list \<Rightarrow> pystr \<Rightarrow> NFA \<Rightarrow> pystr list" where
  "next_states current_states symbol self =
     fold (\<lambda>state next_states_after_symbol.
             pyset_update next_states_after_symbol
               (dict_get (transitions self) (state, Some symbol) []))
       current_states []"

fun accepts_loop ::
  "pystr \<Rightarrow> pystr list \<Rightarrow> NFA \<Rightarrow> stdout \<Rightarrow> (error + bool) \<times> NFA \<times> stdout" where
  "accepts_loop [] current_states self out =
     (Inr (\<not> isdisjoint current_states (accept_states self)), self, out)"
| "accepts_loop (c # rest) current_states self out =
     (if [c] \<notin> set (alphabet self)
      then (case print (Warning_symbol_not_in_alphabet [c] (alphabet self)) out of
              (Inl e, out') \<Rightarrow> (Inl e, self, out')
            | (Inr u, out') \<Rightarrow> (Inr False, self, out'))
      else (case get_epsilon_closure_set (next_states current_states [c] self) self of
              (current_states', self') \<Rightarrow>
                if current_states' = [] then (Inr False, self', out)
                else accepts_loop rest current_states' self' out))"

definition accepts :: "pystr \<Rightarrow> NFA \<Rightarrow> stdout \<Rightarrow> (error + bool) \<times> NFA \<times> stdout" where
  "accepts input_string self out =
     (case get_epsilon_closure_set [start_state self] self of
        (current_states, self') \<Rightarrow> accepts_loop input_string current_states self' out)"

section \<open>parse_grammar\<close>

type_synonym production = "pystr option \<times> pystr option"
type_synonym grammar = "(pystr \<times> production list) list"

text \<open>\<open>grammar[head].append(p)\<close> on a \<open>defaultdict(list)\<close>.\<close>

definition grammar_append :: "pystr \<Rightarrow> production \<Rightarrow> grammar \<Rightarrow> grammar" where
  "grammar_append head p g = AList.update head (dict_get g head [] @ [p]) g"

definition epsilon_sign :: pystr where
  "epsilon_sign = [949]"

fun parse_productions ::
  "nat \<Rightarrow> pystr \<Rightarrow> pystr list \<Rightarrow> pystr list \<Rightarrow> pystr list \<Rightarrow> grammar \<Rightarrow> error + grammar" where
  "parse_productions line_num head declared_non_terminals declared_terminals [] g = Inr g"
| "parse_productions line_num head declared_non_terminals declared_terminals (prd # prods) g =
     (if lower prd = str ''epsilon'' \<or> prd = epsilon_sign
      then parse_productions line_num head declared_non_terminals declared_terminals prods
             (grammar_append head (None, None) g)
      else if length prd = 1
      then (if prd \<notin> set declared_terminals
            then Inl (ValueError (Terminal_not_declared line_num prd prd head))
            else parse_productions line_num head declared_non_terminals declared_terminals prods
                   (grammar_append head (Some prd, None) g))
      else if length prd \<ge> 2
      then (if length prd = 2
            then (let terminal = [prd ! 0]; next_non_terminal = [prd ! 1]
                  in if terminal \<notin> set declared_terminals
                     then Inl (ValueError (Terminal_not_declared line_num terminal prd head))
                     else if next_non_terminal \<notin> set declared_non_terminals
                     then Inl (ValueError
                            (Non_terminal_not_declared line_num next_non_terminal prd head))
                     else parse_productions line_num head declared_non_terminals
                            declared_terminals prods
                            (grammar_append head (Some terminal, Some next_non_terminal) g))
            else Inl (ValueError (Invalid_production_format line_num prd head)))
      else Inl (ValueError (Unexpected_production_format line_num prd head)))"

text \<open>
  The loop over the rule lines. The set \<open>defined_non_terminals_in_rules\<close> of the source is
  written and never read, and has no counterpart here.
\<close>

fun parse_lines ::
  "pystr list \<Rightarrow> pystr list \<Rightarrow> nat \<Rightarrow> pystr list \<Rightarrow> grammar \<Rightarrow> error + grammar" where
  "parse_lines declared_non_terminals declared_terminals line_num [] g = Inr g"
| "parse_lines declared_non_terminals declared_terminals line_num (raw # rest) g =
     (let line = strip raw
      in if line = [] \<or> startswith line (str ''#'')
         then parse_lines declared_non_terminals declared_terminals (Suc line_num) rest g
         else (case split_once (str ''->'') line of
                 None \<Rightarrow> Inl (ValueError (Missing_arrow line_num line))
               | Some (head0, body) \<Rightarrow>
                   (let head = strip head0
                    in if head = [] then Inl (ValueError (Empty_head line_num))
                       else if head \<notin> set declared_non_terminals
                       then Inl (ValueError (Head_not_declared line_num head))
                       else (let productions = map strip (split_char 124 body)
                             in if productions = [] \<or> list_ex (\<lambda>p. p = []) productions
                                then Inl (ValueError (Empty_production line_num head))
                                else (case parse_productions line_num head
                                             declared_non_terminals declared_terminals
                                             productions g of
                                        Inl e \<Rightarrow> Inl e
                                      | Inr g' \<Rightarrow>
                                          parse_lines declared_non_terminals
                                            declared_terminals (Suc line_num) rest g')))))"

definition parse_grammar ::
  "pystr list \<Rightarrow> pystr list \<Rightarrow> pystr list \<Rightarrow> pystr \<Rightarrow> error + grammar" where
  "parse_grammar grammar_lines declared_non_terminals declared_terminals declared_start_symbol =
     (if declared_non_terminals = [] then Inl (ValueError Non_terminal_set_empty)
      else if declared_start_symbol \<notin> set declared_non_terminals
      then Inl (ValueError (Start_symbol_not_declared declared_start_symbol))
      else if \<not> isdisjoint declared_terminals declared_non_terminals
      then Inl (ValueError (Terminals_non_terminals_overlap
                  (intersection declared_terminals declared_non_terminals)))
      else parse_lines declared_non_terminals declared_terminals 1 grammar_lines [])"

section \<open>build_nfa_from_grammar\<close>

definition FINAL_STATE_MARKER :: pystr where
  "FINAL_STATE_MARKER = str ''_FINAL_''"

text \<open>\<open>nfa_transitions[key].add(x)\<close> on a \<open>defaultdict(set)\<close>.\<close>

definition transitions_add ::
  "pystr \<times> pystr option \<Rightarrow> pystr \<Rightarrow> nfa_transitions \<Rightarrow> nfa_transitions" where
  "transitions_add key x tr = AList.update key (pyset_add x (dict_get tr key [])) tr"

fun add_production :: "pystr \<Rightarrow> production \<Rightarrow> nfa_transitions \<Rightarrow> error + nfa_transitions" where
  "add_production head_state (None, None) tr =
     Inr (transitions_add (head_state, None) FINAL_STATE_MARKER tr)"
| "add_production head_state (Some terminal, None) tr =
     Inr (transitions_add (head_state, Some terminal) FINAL_STATE_MARKER tr)"
| "add_production head_state (Some terminal, Some next_state) tr =
     Inr (transitions_add (head_state, Some terminal) next_state tr)"
| "add_production head_state (None, Some next_state) tr =
     Inl (RuntimeError (Unexpected_parsed_production None (Some next_state) head_state))"

fun add_productions ::
  "pystr \<Rightarrow> production list \<Rightarrow> nfa_transitions \<Rightarrow> error + nfa_transitions" where
  "add_productions head_state [] tr = Inr tr"
| "add_productions head_state (p # ps) tr =
     (case add_production head_state p tr of
        Inl e \<Rightarrow> Inl e
      | Inr tr' \<Rightarrow> add_productions head_state ps tr')"

fun add_rules :: "grammar \<Rightarrow> nfa_transitions \<Rightarrow> error + nfa_transitions" where
  "add_rules [] tr = Inr tr"
| "add_rules ((head_state, productions) # g) tr =
     (case add_productions head_state productions tr of
        Inl e \<Rightarrow> Inl e
      | Inr tr' \<Rightarrow> add_rules g tr')"

definition build_nfa_from_grammar ::
  "grammar \<Rightarrow> pystr list \<Rightarrow> pystr list \<Rightarrow> pystr \<Rightarrow> error + NFA" where
  "build_nfa_from_grammar grammar_dict non_terminals terminals start_symbol =
     (let nfa_states = pyset non_terminals
      in if FINAL_STATE_MARKER \<in> set nfa_states then Inl (ValueError Final_marker_clash)
         else (let nfa_states = pyset_add FINAL_STATE_MARKER nfa_states;
                   nfa_alphabet = pyset terminals;
                   nfa_start_state = start_symbol;
                   nfa_accept_states = [FINAL_STATE_MARKER]
               in (case add_rules grammar_dict [] of
                     Inl e \<Rightarrow> Inl e
                   | Inr nfa_transitions \<Rightarrow>
                       NFA_init nfa_states nfa_alphabet nfa_transitions nfa_start_state
                         nfa_accept_states)))"

section \<open>The acceptance check of main\<close>

text \<open>
  What \<open>main\<close> does with one input string (lines 292 to 301): it scans the string for
  symbols outside the alphabet and prints them, or calls \<open>accepts\<close> and prints the
  result. An exception of \<open>accepts\<close> or of a \<open>print\<close> leaves the loop; it is the result here.
\<close>

definition main_check_string :: "pystr \<Rightarrow> NFA \<Rightarrow> stdout \<Rightarrow> (error + unit) \<times> NFA \<times> stdout" where
  "main_check_string input_string nfa out =
     (let is_valid_input = list_all (\<lambda>char. [char] \<in> set (alphabet nfa)) input_string
      in if \<not> is_valid_input
         then (let invalid_chars =
                     pyset (map (\<lambda>char. [char])
                       (filter (\<lambda>char. [char] \<notin> set (alphabet nfa)) input_string))
               in (case print (String_rejected_invalid_symbols input_string invalid_chars) out of
                     (r, out') \<Rightarrow> (r, nfa, out')))
         else (case accepts input_string nfa out of
                 (Inl e, nfa', out') \<Rightarrow> (Inl e, nfa', out')
               | (Inr is_accepted, nfa', out') \<Rightarrow>
                   (case print (String_result input_string is_accepted) out' of
                      (r, out'') \<Rightarrow> (r, nfa', out''))))"

section \<open>Notions used to state the properties\<close>

text \<open>
  The epsilon edges of a transition table, as a relation on states: \<open>t\<close> is an epsilon
  neighbour of \<open>s\<close> when \<open>t\<close> is in \<open>transitions.get((s, None), set())\<close>.
\<close>

definition eps_edges :: "nfa_transitions \<Rightarrow> (pystr \<times> pystr) set" where
  "eps_edges T = {(s, t). t \<in> set (dict_get T (s, None) [])}"

text \<open>
  The invariant of the \<open>while queue\<close> loop, for the closure of state \<open>s\<close>: closure and
  visited hold the same states, all of them reachable from \<open>s\<close>; the queue holds visited
  states; the neighbours of every visited state that has left the queue are visited.
\<close>

definition bfs_inv ::
  "nfa_transitions \<Rightarrow> pystr \<Rightarrow> pystr list \<times> pystr list \<times> pystr list \<Rightarrow> bool" where
  "bfs_inv T s st =
     (case st of (v, c, q) \<Rightarrow>
        set c = set v \<and> set q \<subseteq> set v \<and> s \<in> set v \<and>
        set v \<subseteq> (eps_edges T)\<^sup>* `` {s} \<and>
        eps_edges T `` (set v - set q) \<subseteq> set v)"

text \<open>
  The acceptance algorithm in the words of the specification, on sets of states. The
  epsilon closure of a set is the set of states reachable from its members by zero or
  more epsilon transitions; a move on a symbol is the union of \<open>transitions(s, symbol)\<close>
  over the current states, the empty set where the table has no entry; a run rejects as
  soon as the current set is empty and accepts at the end when the current set meets
  the accept states.
\<close>

definition spec_closure :: "NFA \<Rightarrow> pystr set \<Rightarrow> pystr set" where
  "spec_closure nfa X = (eps_edges (transitions nfa))\<^sup>* `` X"

definition spec_move :: "NFA \<Rightarrow> pystr set \<Rightarrow> pystr \<Rightarrow> pystr set" where
  "spec_move nfa X symbol =
     (\<Union>s\<in>X. case map_of (transitions nfa) (s, Some symbol) of None \<Rightarrow> {} | Some ts \<Rightarrow> set ts)"

fun spec_run :: "NFA \<Rightarrow> pystr set \<Rightarrow> pystr \<Rightarrow> bool" where
  "spec_run nfa current [] = (current \<inter> set (accept_states nfa) \<noteq> {})"
| "spec_run nfa current (c # rest) =
     (if spec_closure nfa (spec_move nfa current [c]) = {} then False
      else spec_run nfa (spec_closure nfa (spec_move nfa current [c])) rest)"

definition spec_accepts :: "NFA \<Rightarrow> pystr \<Rightarrow> bool" where
  "spec_accepts nfa input_string =
     spec_run nfa (spec_closure nfa {start_state nfa}) input_string"

text \<open>
  The current set of \<open>accepts\<close> after the symbols of a string over the alphabet, from a
  given current set; \<open>None\<close> when the loop has returned on an empty current set.
\<close>

fun simulate :: "NFA \<Rightarrow> pystr list \<Rightarrow> pystr \<Rightarrow> pystr list option" where
  "simulate nfa current_states [] = Some current_states"
| "simulate nfa current_states (c # rest) =
     (if fst (get_epsilon_closure_set (next_states current_states [c] nfa) nfa) = [] then None
      else simulate nfa (fst (get_epsilon_closure_set (next_states current_states [c] nfa) nfa))
             rest)"

text \<open>
  A standard output with the encoding utf-8 and the error handler \<open>strict\<close>, nothing
  written yet. It encodes every code point but the surrogates U+D800 to U+DFFF. The
  three texts hold the symbol or the input string as it is, and the members of a set in
  their \<open>repr\<close>, which escapes surrogates.
\<close>

definition surrogate :: "codepoint \<Rightarrow> bool" where
  "surrogate c = (55296 \<le> c \<and> c \<le> 57343)"

fun utf8_encodes :: "printed \<Rightarrow> bool" where
  "utf8_encodes (Warning_symbol_not_in_alphabet symbol alph) = (\<not> list_ex surrogate symbol)"
| "utf8_encodes (String_rejected_invalid_symbols input_string invalid_chars) =
     (\<not> list_ex surrogate input_string)"
| "utf8_encodes (String_result input_string is_accepted) = (\<not> list_ex surrogate input_string)"

abbreviation utf8_stdout :: stdout where
  "utf8_stdout \<equiv> \<lparr>encodes = utf8_encodes, written = []\<rparr>"

text \<open>
  The three shapes of a production that the specification allows, over the declared
  symbols: \<open>(None, None)\<close>, \<open>(terminal, None)\<close> and \<open>(terminal, non-terminal)\<close>.
\<close>

fun legal_shape :: "pystr list \<Rightarrow> pystr list \<Rightarrow> production \<Rightarrow> bool" where
  "legal_shape declared_non_terminals declared_terminals (None, None) = True"
| "legal_shape declared_non_terminals declared_terminals (Some terminal, None) =
     (terminal \<in> set declared_terminals)"
| "legal_shape declared_non_terminals declared_terminals (Some terminal, Some next_non_terminal) =
     (terminal \<in> set declared_terminals \<and> next_non_terminal \<in> set declared_non_terminals)"
| "legal_shape declared_non_terminals declared_terminals (None, Some next_non_terminal) = False"

definition legal_grammar :: "pystr list \<Rightarrow> pystr list \<Rightarrow> grammar \<Rightarrow> bool" where
  "legal_grammar declared_non_terminals declared_terminals g =
     list_all (\<lambda>rule. list_all (legal_shape declared_non_terminals declared_terminals) (snd rule)) g"

text \<open>
  Three automata written out: the ones that scenarios 1 and 2 of the specification
  build, and one whose table leads to a state \<open>X\<close> that is not among its states.
\<close>

abbreviation scenario_1_nfa :: NFA where
  "scenario_1_nfa \<equiv>
     \<lparr>states = [str ''S'', str ''A'', str ''_FINAL_''],
      alphabet = [str ''a'', str ''b''],
      transitions =
        [((str ''S'', Some (str ''a'')), [str ''A'']),
         ((str ''S'', Some (str ''b'')), [str ''_FINAL_'']),
         ((str ''A'', Some (str ''b'')), [str ''_FINAL_''])],
      start_state = str ''S'', accept_states = [str ''_FINAL_''],
      epsilon_closures =
        [(str ''S'', [str ''S'']), (str ''A'', [str ''A'']),
         (str ''_FINAL_'', [str ''_FINAL_''])]\<rparr>"

abbreviation scenario_2_nfa :: NFA where
  "scenario_2_nfa \<equiv>
     \<lparr>states = [str ''S'', str ''_FINAL_''], alphabet = [str ''a''],
      transitions = [((str ''S'', None), [str ''_FINAL_''])],
      start_state = str ''S'', accept_states = [str ''_FINAL_''],
      epsilon_closures =
        [(str ''S'', [str ''S'', str ''_FINAL_'']), (str ''_FINAL_'', [str ''_FINAL_''])]\<rparr>"

abbreviation dangling_nfa :: NFA where
  "dangling_nfa \<equiv>
     \<lparr>states = [str ''S'', str ''F''], alphabet = [str ''a''],
      transitions =
        [((str ''S'', Some (str ''a'')), [str ''X'']), ((str ''X'', None), [str ''F''])],
      start_state = str ''S'', accept_states = [str ''F''],
      epsilon_closures = [(str ''S'', [str ''S'']), (str ''F'', [str ''F''])]\<rparr>"

section \<open>Simplification rules for evaluating the model\<close>

lemmas str_simps =
  str_def strip_def isspace_def startswith_def lower_def lower_cp_def epsilon_sign_def

lemmas pyset_simps =
  pyset_def pyset_add_def pyset_update_def isdisjoint_def issubset_def intersection_def
  dict_get_def

lemmas nfa_simps =
  build_nfa_from_grammar_def FINAL_STATE_MARKER_def transitions_add_def NFA_init_def
  compute_all_epsilon_closures_def compute_epsilon_closure_def bfs_loop.simps

lemmas accepts_simps = accepts_def get_epsilon_closure_set_def next_states_def print_def

section \<open>The breadth-first search computes the epsilon closure\<close>

lemma visit_neighbors_sets:
  "visit_neighbors ns (v, c, q) = (v', c', q') \<Longrightarrow>
   set v' = set v \<union> set ns \<and> set c' = set c \<union> (set ns - set v) \<and>
   set q' = set q \<union> (set ns - set v)"
proof (induction ns arbitrary: v c q)
  case Nil
  then show ?case by simp
next
  case (Cons n ns)
  show ?case
  proof (cases "n \<in> set v")
    case True
    with Cons.prems have "visit_neighbors ns (v, c, q) = (v', c', q')" by simp
    from Cons.IH [OF this] True show ?thesis by auto
  next
    case False
    with Cons.prems have
      "visit_neighbors ns (pyset_add n v, pyset_add n c, q @ [n]) = (v', c', q')" by simp
    from Cons.IH [OF this] False show ?thesis by (auto simp: pyset_add_def)
  qed
qed

lemma bfs_inv_step:
  assumes "bfs_inv T s (v, c, x # q)"
  shows "bfs_inv T s (visit_neighbors (dict_get T (x, None) []) (v, c, q))"
proof -
  let ?ns = "dict_get T (x, None) []"
  obtain v' c' q' where eq: "visit_neighbors ?ns (v, c, q) = (v', c', q')"
    by (cases "visit_neighbors ?ns (v, c, q)")
  from visit_neighbors_sets [OF eq]
  have v': "set v' = set v \<union> set ?ns" and c': "set c' = set c \<union> (set ?ns - set v)"
    and q': "set q' = set q \<union> (set ?ns - set v)" by simp_all
  from assms have cv: "set c = set v" and qv: "set q \<subseteq> set v" and xv: "x \<in> set v"
    and sv: "s \<in> set v" and reach: "set v \<subseteq> (eps_edges T)\<^sup>* `` {s}"
    and closed: "eps_edges T `` (set v - set (x # q)) \<subseteq> set v"
    by (simp_all add: bfs_inv_def)
  have ns: "set ?ns = eps_edges T `` {x}" by (auto simp: eps_edges_def)
  have "set ?ns \<subseteq> (eps_edges T)\<^sup>* `` {s}"
  proof
    fix t assume "t \<in> set ?ns"
    then have "(x, t) \<in> eps_edges T" using ns by auto
    moreover from xv reach have "(s, x) \<in> (eps_edges T)\<^sup>*" by auto
    ultimately show "t \<in> (eps_edges T)\<^sup>* `` {s}" by (auto intro: rtrancl_into_rtrancl)
  qed
  moreover have "eps_edges T `` (set v' - set q') \<subseteq> set v'"
  proof
    fix t assume "t \<in> eps_edges T `` (set v' - set q')"
    then obtain y where y: "y \<in> set v'" "y \<notin> set q'" "(y, t) \<in> eps_edges T" by auto
    from y(1,2) v' q' have yv: "y \<in> set v" and yq: "y \<notin> set q" by auto
    show "t \<in> set v'"
    proof (cases "y = x")
      case True
      with y(3) ns have "t \<in> set ?ns" by auto
      with v' show ?thesis by simp
    next
      case False
      with yv yq have "y \<in> set v - set (x # q)" by simp
      with y(3) closed have "t \<in> set v" by auto
      with v' show ?thesis by simp
    qed
  qed
  ultimately show ?thesis
    using cv qv sv reach v' c' q' by (auto simp: bfs_inv_def eq)
qed

lemma bfs_loop_reach:
  "bfs_inv T s st \<Longrightarrow> set (bfs_loop T st) = (eps_edges T)\<^sup>* `` {s}"
proof (induction T st rule: bfs_loop.induct)
  case (1 T visited closure)
  then have cv: "set closure = set visited" and sv: "s \<in> set visited"
    and reach: "set visited \<subseteq> (eps_edges T)\<^sup>* `` {s}"
    and closed: "eps_edges T `` set visited \<subseteq> set visited"
    by (simp_all add: bfs_inv_def)
  have "(eps_edges T)\<^sup>* `` {s} \<subseteq> set visited"
  proof
    fix t assume "t \<in> (eps_edges T)\<^sup>* `` {s}"
    then have "(s, t) \<in> (eps_edges T)\<^sup>*" by simp
    then show "t \<in> set visited"
      by (induction rule: rtrancl_induct) (use sv closed in auto)
  qed
  with reach cv show ?case by (simp add: bfs_loop.simps)
next
  case (2 T visited closure current_state queue)
  from bfs_inv_step [OF "2.prems"] "2.IH" show ?case by (simp add: bfs_loop.simps)
qed

lemma closure_reach:
  "set (bfs_loop T ([s], [s], [s])) = (eps_edges T)\<^sup>* `` {s}"
  by (rule bfs_loop_reach) (simp add: bfs_inv_def)

lemma compute_epsilon_closure_frame:
  "\<exists>e. snd (compute_epsilon_closure x nfa) = nfa\<lparr>epsilon_closures := e\<rparr>"
proof (cases "map_of (epsilon_closures nfa) x")
  case None
  then have "snd (compute_epsilon_closure x nfa) =
      nfa\<lparr>epsilon_closures :=
            AList.update x (bfs_loop (transitions nfa) ([x], [x], [x])) (epsilon_closures nfa)\<rparr>"
    by (simp add: compute_epsilon_closure_def Let_def)
  then show ?thesis by (rule exI)
next
  case (Some c)
  then have "snd (compute_epsilon_closure x nfa) = nfa\<lparr>epsilon_closures := epsilon_closures nfa\<rparr>"
    by (simp add: compute_epsilon_closure_def)
  then show ?thesis by (rule exI)
qed

lemma compute_epsilon_closure_cache:
  "map_of (epsilon_closures (snd (compute_epsilon_closure x nfa))) s =
     (case map_of (epsilon_closures nfa) s of
        Some c \<Rightarrow> Some c
      | None \<Rightarrow> if s = x then Some (bfs_loop (transitions nfa) ([s], [s], [s])) else None)"
  by (simp add: compute_epsilon_closure_def Let_def update_conv' split: option.splits)

lemma fold_compute_frame:
  "\<exists>e. fold (\<lambda>state nfa. snd (compute_epsilon_closure state nfa)) xs nfa =
       nfa\<lparr>epsilon_closures := e\<rparr>"
proof (induction xs arbitrary: nfa)
  case Nil
  have "fold (\<lambda>state nfa. snd (compute_epsilon_closure state nfa)) [] nfa =
          nfa\<lparr>epsilon_closures := epsilon_closures nfa\<rparr>" by simp
  then show ?case by (rule exI)
next
  case (Cons x xs)
  obtain e1 where e1: "snd (compute_epsilon_closure x nfa) = nfa\<lparr>epsilon_closures := e1\<rparr>"
    using compute_epsilon_closure_frame by blast
  obtain e2 where
    "fold (\<lambda>state nfa. snd (compute_epsilon_closure state nfa)) xs (nfa\<lparr>epsilon_closures := e1\<rparr>)
       = nfa\<lparr>epsilon_closures := e1\<rparr>\<lparr>epsilon_closures := e2\<rparr>"
    using Cons.IH by blast
  then have "fold (\<lambda>state nfa. snd (compute_epsilon_closure state nfa)) (x # xs) nfa
       = nfa\<lparr>epsilon_closures := e2\<rparr>"
    by (simp add: e1)
  then show ?case by (rule exI)
qed

lemma fold_compute_transitions:
  "transitions (fold (\<lambda>state nfa. snd (compute_epsilon_closure state nfa)) xs nfa) = transitions nfa"
proof -
  obtain e where "fold (\<lambda>state nfa. snd (compute_epsilon_closure state nfa)) xs nfa =
       nfa\<lparr>epsilon_closures := e\<rparr>" using fold_compute_frame by blast
  then show ?thesis by simp
qed

lemma fold_compute_cache:
  "map_of (epsilon_closures (fold (\<lambda>state nfa. snd (compute_epsilon_closure state nfa)) xs nfa)) s =
     (case map_of (epsilon_closures nfa) s of
        Some c \<Rightarrow> Some c
      | None \<Rightarrow> if s \<in> set xs then Some (bfs_loop (transitions nfa) ([s], [s], [s])) else None)"
proof (induction xs arbitrary: nfa)
  case Nil
  show ?case by (simp split: option.splits)
next
  case (Cons x xs)
  have tr: "transitions (snd (compute_epsilon_closure x nfa)) = transitions nfa"
    using fold_compute_transitions [of "[x]" nfa] by simp
  show ?case
    by (simp add: Cons.IH compute_epsilon_closure_cache tr split: option.splits)
qed

lemma NFA_init_fields:
  assumes "NFA_init sts alph trns start accept = Inr nfa"
  shows "states nfa = pyset sts" and "alphabet nfa = pyset alph" and "transitions nfa = trns"
    and "start_state nfa = start" and "accept_states nfa = pyset accept"
    and "start \<in> set sts" and "set accept \<subseteq> set sts"
    and "map_of (epsilon_closures nfa) s =
           (if s \<in> set sts then Some (bfs_loop trns ([s], [s], [s])) else None)"
proof -
  let ?self = "\<lparr>states = pyset sts, alphabet = pyset alph, transitions = trns,
                 start_state = start, accept_states = pyset accept, epsilon_closures = []\<rparr>"
  from assms have nfa: "nfa = compute_all_epsilon_closures ?self"
    and st: "start \<in> set sts" and acc: "issubset (pyset accept) (pyset sts)"
    by (auto simp: NFA_init_def Let_def pyset_def split: if_splits option.splits)
  obtain e where frame: "nfa = ?self\<lparr>epsilon_closures := e\<rparr>"
    unfolding nfa compute_all_epsilon_closures_def
    using fold_compute_frame [of "pyset sts" ?self] by auto
  show "states nfa = pyset sts" by (simp add: frame)
  show "alphabet nfa = pyset alph" by (simp add: frame)
  show "transitions nfa = trns" by (simp add: frame)
  show "start_state nfa = start" by (simp add: frame)
  show "accept_states nfa = pyset accept" by (simp add: frame)
  show "start \<in> set sts" by (rule st)
  from acc show "set accept \<subseteq> set sts"
    by (auto simp: issubset_def pyset_def filter_empty_conv)
  show "map_of (epsilon_closures nfa) s =
           (if s \<in> set sts then Some (bfs_loop trns ([s], [s], [s])) else None)"
    unfolding nfa compute_all_epsilon_closures_def
    by (simp add: fold_compute_cache pyset_def)
qed

lemma set_pyset_update: "set (pyset_update s xs) = set s \<union> set xs"
  unfolding pyset_update_def
  by (induction xs arbitrary: s) (auto simp: pyset_add_def)

lemma set_fold_pyset_update:
  "set (fold (\<lambda>s acc. pyset_update acc (f s)) xs acc0) = set acc0 \<union> (\<Union>x\<in>set xs. set (f x))"
  by (induction xs arbitrary: acc0) (auto simp: set_pyset_update)

lemma set_get_epsilon_closure_set:
  "set (fst (get_epsilon_closure_set X nfa)) = (\<Union>x\<in>set X. set (dict_get (epsilon_closures nfa) x [x]))"
  by (simp add: get_epsilon_closure_set_def set_fold_pyset_update)

lemma snd_get_epsilon_closure_set: "snd (get_epsilon_closure_set X nfa) = nfa"
  by (simp add: get_epsilon_closure_set_def)

lemma set_next_states:
  "set (next_states X a nfa) = (\<Union>x\<in>set X. set (dict_get (transitions nfa) (x, Some a) []))"
  by (simp add: next_states_def set_fold_pyset_update)

lemma cached_closure:
  assumes "NFA_init sts alph trns start accept = Inr nfa"
  shows "set (dict_get (epsilon_closures nfa) x [x]) =
           (if x \<in> set (states nfa) then (eps_edges (transitions nfa))\<^sup>* `` {x} else {x})"
  using NFA_init_fields(1,3,8) [OF assms]
  by (simp add: dict_get_def closure_reach pyset_def)

section \<open>The acceptance loop\<close>

lemma accepts_loop_alphabet:
  "list_all (\<lambda>c. [c] \<in> set (alphabet nfa)) w \<Longrightarrow>
   accepts_loop w cur nfa out =
     (Inr (case simulate nfa cur w of
             None \<Rightarrow> False
           | Some cur' \<Rightarrow> \<not> isdisjoint cur' (accept_states nfa)),
      nfa, out)"
  by (induction w arbitrary: cur) (simp_all add: get_epsilon_closure_set_def)

lemma accepts_loop_first_invalid:
  "list_all (\<lambda>c. [c] \<in> set (alphabet nfa)) pre \<Longrightarrow> [c] \<notin> set (alphabet nfa) \<Longrightarrow>
   accepts_loop (pre @ c # post) cur nfa out =
     (case simulate nfa cur pre of
        None \<Rightarrow> (Inr False, nfa, out)
      | Some cur' \<Rightarrow>
          if encodes out (Warning_symbol_not_in_alphabet [c] (alphabet nfa))
          then (Inr False, nfa, out\<lparr>written := written out @ [Warning_symbol_not_in_alphabet [c] (alphabet nfa)]\<rparr>)
          else (Inl UnicodeEncodeError, nfa, out))"
  by (induction pre arbitrary: cur) (simp_all add: get_epsilon_closure_set_def print_def)

lemma first_invalid:
  assumes "\<not> list_all (\<lambda>c. [c] \<in> set (alphabet nfa)) w"
  shows "\<exists>pre c post. w = pre @ c # post \<and> list_all (\<lambda>c. [c] \<in> set (alphabet nfa)) pre \<and> [c] \<notin> set (alphabet nfa)"
proof -
  from assms have "\<exists>c\<in>set w. [c] \<notin> set (alphabet nfa)" by (simp add: list_all_iff)
  from split_list_first_prop [OF this] obtain pre c post where
    "w = pre @ c # post" "[c] \<notin> set (alphabet nfa)" "\<forall>y\<in>set pre. \<not> [y] \<notin> set (alphabet nfa)"
    by blast
  then show ?thesis by (auto simp: list_all_iff)
qed

lemma accepts_loop_frame:
  "\<exists>r out'. accepts_loop w cur nfa out = (r, nfa, out') \<and> encodes out' = encodes out \<and>
     (\<forall>out2. encodes out2 = encodes out \<longrightarrow> (\<exists>out2'. accepts_loop w cur nfa out2 = (r, nfa, out2')))"
proof (cases "list_all (\<lambda>c. [c] \<in> set (alphabet nfa)) w")
  case True
  then show ?thesis by (simp add: accepts_loop_alphabet)
next
  case False
  from first_invalid [OF this] obtain pre c post where w: "w = pre @ c # post"
    and pre: "list_all (\<lambda>c. [c] \<in> set (alphabet nfa)) pre" and c: "[c] \<notin> set (alphabet nfa)" by blast
  show ?thesis
    unfolding w accepts_loop_first_invalid [OF pre c]
    by (cases "simulate nfa cur pre") simp_all
qed

lemma reach_within:
  assumes "targets T \<subseteq> Q" and "(s, t) \<in> (eps_edges T)\<^sup>*" and "s \<in> Q"
  shows "t \<in> Q"
  using assms(2,3)
proof (induction rule: rtrancl_induct)
  case base
  then show ?case .
next
  case (step y z)
  from step(2) have "z \<in> set (dict_get T (y, None) [])" by (simp add: eps_edges_def)
  with dict_get_targets [of T "(y, None)"] assms(1) show ?case by blast
qed

lemma closure_set_declared:
  assumes init: "NFA_init sts alph trns start accept = Inr nfa"
    and X: "set X \<subseteq> set (states nfa)"
  shows "set (fst (get_epsilon_closure_set X nfa)) = spec_closure nfa (set X)"
proof -
  have "set (dict_get (epsilon_closures nfa) x [x]) = (eps_edges (transitions nfa))\<^sup>* `` {x}"
    if "x \<in> set X" for x
    using that X cached_closure [OF init, of x] by auto
  then show ?thesis
    unfolding set_get_epsilon_closure_set spec_closure_def by blast
qed

lemma spec_closure_within:
  assumes "targets (transitions nfa) \<subseteq> set (states nfa)" and "X \<subseteq> set (states nfa)"
  shows "spec_closure nfa X \<subseteq> set (states nfa)"
  using assms reach_within [of "transitions nfa" "set (states nfa)"]
  unfolding spec_closure_def by blast

lemma set_dict_get:
  "set (dict_get al k []) = (case map_of al k of None \<Rightarrow> {} | Some ts \<Rightarrow> set ts)"
  by (simp add: dict_get_def split: option.splits)

lemma set_next_states_spec: "set (next_states X a nfa) = spec_move nfa (set X) a"
  unfolding set_next_states spec_move_def set_dict_get ..

lemma spec_move_targets: "spec_move nfa X a \<subseteq> targets (transitions nfa)"
proof
  fix t assume "t \<in> spec_move nfa X a"
  then obtain s where "t \<in> set (dict_get (transitions nfa) (s, Some a) [])"
    unfolding spec_move_def set_dict_get [symmetric] by blast
  with dict_get_targets show "t \<in> targets (transitions nfa)" by blast
qed

lemma accepts_loop_spec:
  assumes init: "NFA_init sts alph trns start accept = Inr nfa"
    and tg: "targets (transitions nfa) \<subseteq> set (states nfa)"
  shows "list_all (\<lambda>c. [c] \<in> set (alphabet nfa)) w \<Longrightarrow> set cur \<subseteq> set (states nfa) \<Longrightarrow>
         accepts_loop w cur nfa out = (Inr (spec_run nfa (set cur) w), nfa, out)"
proof (induction w arbitrary: cur)
  case Nil
  show ?case by (auto simp: isdisjoint_def filter_empty_conv)
next
  case (Cons c w)
  let ?nxt = "next_states cur [c] nfa"
  obtain cur1 where eq: "get_epsilon_closure_set ?nxt nfa = (cur1, nfa)"
    by (simp add: get_epsilon_closure_set_def)
  from Cons.prems have c: "[c] \<in> set (alphabet nfa)"
    and w: "list_all (\<lambda>c. [c] \<in> set (alphabet nfa)) w" by simp_all
  have nxt: "set ?nxt \<subseteq> set (states nfa)"
    using spec_move_targets [of nfa "set cur" "[c]"] tg by (simp add: set_next_states_spec)
  have cur1: "set cur1 = spec_closure nfa (spec_move nfa (set cur) [c])"
    using closure_set_declared [OF init nxt] by (simp add: set_next_states_spec eq)
  have sub: "set cur1 \<subseteq> set (states nfa)"
    unfolding cur1 using spec_closure_within [OF tg] nxt by (simp add: set_next_states_spec)
  have empty: "(cur1 = []) = (spec_closure nfa (spec_move nfa (set cur) [c]) = {})"
    unfolding cur1 [symmetric] by simp
  show ?case
  proof (cases "cur1 = []")
    case True
    with c empty show ?thesis by (simp add: eq)
  next
    case False
    with c empty Cons.IH [OF w sub] cur1 show ?thesis by (simp add: eq)
  qed
qed

section \<open>What the parser produces\<close>

lemma in_set_update:
  "(k, v) \<in> set (AList.update k0 v0 al) \<Longrightarrow> (k, v) \<in> set al \<or> (k = k0 \<and> v = v0)"
  by (induction al) (auto split: if_splits)

lemma dict_get_in_set:
  "dict_get al k [] = [] \<or> (k, dict_get al k []) \<in> set al"
  by (cases "map_of al k") (auto simp: dict_get_def dest: map_of_SomeD)

lemma legal_grammar_append:
  assumes "legal_grammar NT Tm g" and "legal_shape NT Tm p"
  shows "legal_grammar NT Tm (grammar_append h p g)"
proof -
  have old: "list_all (legal_shape NT Tm) (dict_get g h [])"
    using dict_get_in_set [of g h] assms(1)
    by (auto simp: legal_grammar_def list_all_iff)
  show ?thesis
    unfolding legal_grammar_def list_all_iff
  proof
    fix rule assume "rule \<in> set (grammar_append h p g)"
    then have "(fst rule, snd rule) \<in> set (AList.update h (dict_get g h [] @ [p]) g)"
      by (simp add: grammar_append_def)
    from in_set_update [OF this]
    show "\<forall>x\<in>set (snd rule). legal_shape NT Tm x"
      using assms old by (auto simp: legal_grammar_def list_all_iff)
  qed
qed

lemma parse_productions_legal:
  "parse_productions line_num h NT Tm prods g = Inr g' \<Longrightarrow> legal_grammar NT Tm g \<Longrightarrow>
   legal_grammar NT Tm g'"
proof (induction prods arbitrary: g)
  case Nil
  then show ?case by simp
next
  case (Cons prd prods)
  show ?case
  proof (cases "lower prd = str ''epsilon'' \<or> prd = epsilon_sign")
    case True
    with Cons.prems(1) have
      "parse_productions line_num h NT Tm prods (grammar_append h (None, None) g) = Inr g'"
      by simp
    from Cons.IH [OF this] Cons.prems(2) show ?thesis
      by (simp add: legal_grammar_append)
  next
    case False
    note not_eps = this
    show ?thesis
    proof (cases "length prd = 1")
      case True
      with not_eps Cons.prems(1) have t: "prd \<in> set Tm"
        and r: "parse_productions line_num h NT Tm prods (grammar_append h (Some prd, None) g) = Inr g'"
        by (auto split: if_splits)
      from Cons.IH [OF r] Cons.prems(2) t show ?thesis
        by (simp add: legal_grammar_append)
    next
      case False
      with not_eps Cons.prems(1) have t: "[prd ! 0] \<in> set Tm" and n: "[prd ! 1] \<in> set NT"
        and r: "parse_productions line_num h NT Tm prods
                  (grammar_append h (Some [prd ! 0], Some [prd ! 1]) g) = Inr g'"
        by (auto simp: Let_def split: if_splits)
      from Cons.IH [OF r] Cons.prems(2) t n show ?thesis
        by (simp add: legal_grammar_append)
    qed
  qed
qed

lemma parse_lines_legal:
  "parse_lines NT Tm line_num ls g = Inr g' \<Longrightarrow> legal_grammar NT Tm g \<Longrightarrow>
   legal_grammar NT Tm g'"
proof (induction ls arbitrary: line_num g)
  case Nil
  then show ?case by simp
next
  case (Cons raw rest)
  show ?case
  proof (cases "strip raw = [] \<or> startswith (strip raw) (str ''#'')")
    case True
    with Cons.prems(1) have "parse_lines NT Tm (Suc line_num) rest g = Inr g'"
      by (simp add: Let_def)
    from Cons.IH [OF this Cons.prems(2)] show ?thesis .
  next
    case False
    with Cons.prems(1) obtain head0 body g1 where
      "parse_productions line_num (strip head0) NT Tm (map strip (split_char 124 body)) g = Inr g1"
      and r: "parse_lines NT Tm (Suc line_num) rest g1 = Inr g'"
      by (auto simp: Let_def split: option.splits if_splits sum.splits)
    from parse_productions_legal [OF this(1) Cons.prems(2)] have "legal_grammar NT Tm g1" .
    from Cons.IH [OF r this] show ?thesis .
  qed
qed

lemma parse_grammar_legal:
  assumes "parse_grammar ls NT Tm S = Inr g"
  shows "legal_grammar NT Tm g" and "S \<in> set NT" and "set Tm \<inter> set NT = {}"
proof -
  from assms have pl: "parse_lines NT Tm 1 ls [] = Inr g" and s: "S \<in> set NT"
    and d: "isdisjoint Tm NT"
    by (auto simp: parse_grammar_def split: if_splits)
  from parse_lines_legal [OF pl] show "legal_grammar NT Tm g" by (simp add: legal_grammar_def)
  show "S \<in> set NT" by (rule s)
  from d show "set Tm \<inter> set NT = {}" by (auto simp: isdisjoint_def filter_empty_conv)
qed

section \<open>What the builder produces\<close>

lemma targets_transitions_add:
  "targets (transitions_add key x tr) \<subseteq> insert x (targets tr)"
proof
  fix d assume "d \<in> targets (transitions_add key x tr)"
  then obtain k v where kv: "(k, v) \<in> set (AList.update key (pyset_add x (dict_get tr key [])) tr)"
    and d: "d \<in> set v"
    by (auto simp: targets_def transitions_add_def)
  from in_set_update [OF kv] show "d \<in> insert x (targets tr)"
  proof
    assume "(k, v) \<in> set tr"
    with d show ?thesis by (force simp: targets_def)
  next
    assume "k = key \<and> v = pyset_add x (dict_get tr key [])"
    with d dict_get_targets [of tr key] show ?thesis
      by (auto simp: pyset_add_def split: if_splits)
  qed
qed

lemma add_production_legal:
  assumes "legal_shape NT Tm p"
  shows "\<exists>tr'. add_production h p tr = Inr tr' \<and>
              targets tr' \<subseteq> targets tr \<union> set NT \<union> {FINAL_STATE_MARKER}"
proof (cases p)
  case (Pair terminal next_state)
  show ?thesis
  proof (cases terminal)
    case None
    with Pair assms have "next_state = None" by (cases next_state) simp_all
    with None Pair show ?thesis
      using targets_transitions_add [of "(h, None)" FINAL_STATE_MARKER tr] by auto
  next
    case (Some t)
    show ?thesis
    proof (cases next_state)
      case None
      with Some Pair show ?thesis
        using targets_transitions_add [of "(h, Some t)" FINAL_STATE_MARKER tr] by auto
    next
      case (Some n)
      with \<open>terminal = Some t\<close> Pair assms have "n \<in> set NT" by simp
      with Some \<open>terminal = Some t\<close> Pair show ?thesis
        using targets_transitions_add [of "(h, Some t)" n tr] by auto
    qed
  qed
qed

lemma add_productions_legal:
  "list_all (legal_shape NT Tm) ps \<Longrightarrow>
   \<exists>tr'. add_productions h ps tr = Inr tr' \<and>
         targets tr' \<subseteq> targets tr \<union> set NT \<union> {FINAL_STATE_MARKER}"
proof (induction ps arbitrary: tr)
  case Nil
  then show ?case by auto
next
  case (Cons p ps)
  then have "legal_shape NT Tm p" and rest: "list_all (legal_shape NT Tm) ps" by simp_all
  from add_production_legal [OF this(1)] obtain tr1 where
    1: "add_production h p tr = Inr tr1"
    and t1: "targets tr1 \<subseteq> targets tr \<union> set NT \<union> {FINAL_STATE_MARKER}" by blast
  from Cons.IH [OF rest] obtain tr2 where
    2: "add_productions h ps tr1 = Inr tr2"
    and t2: "targets tr2 \<subseteq> targets tr1 \<union> set NT \<union> {FINAL_STATE_MARKER}" by blast
  from 1 2 t1 t2 show ?case by auto
qed

lemma add_rules_legal:
  "legal_grammar NT Tm g \<Longrightarrow>
   \<exists>tr'. add_rules g tr = Inr tr' \<and>
         targets tr' \<subseteq> targets tr \<union> set NT \<union> {FINAL_STATE_MARKER}"
proof (induction g arbitrary: tr)
  case Nil
  then show ?case by auto
next
  case (Cons rule g)
  obtain h ps where rule: "rule = (h, ps)" by (cases rule)
  from Cons.prems rule have "list_all (legal_shape NT Tm) ps" and rest: "legal_grammar NT Tm g"
    by (simp_all add: legal_grammar_def)
  from add_productions_legal [OF this(1)] obtain tr1 where
    1: "add_productions h ps tr = Inr tr1"
    and t1: "targets tr1 \<subseteq> targets tr \<union> set NT \<union> {FINAL_STATE_MARKER}" by blast
  from Cons.IH [OF rest] obtain tr2 where
    2: "add_rules g tr1 = Inr tr2"
    and t2: "targets tr2 \<subseteq> targets tr1 \<union> set NT \<union> {FINAL_STATE_MARKER}" by blast
  from 1 2 t1 t2 rule show ?case by auto
qed

lemma check_transition_symbols_ValueError:
  "check_transition_symbols ks alph = Some e \<Longrightarrow> \<exists>m. e = ValueError m"
  by (induction ks alph rule: check_transition_symbols.induct) (auto split: if_splits)

lemma NFA_init_ValueError:
  "NFA_init sts alph trns start accept = Inl e \<Longrightarrow> \<exists>m. e = ValueError m"
  by (auto simp: NFA_init_def Let_def split: if_splits option.splits
           dest: check_transition_symbols_ValueError)

lemma build_nfa_unfold:
  assumes "build_nfa_from_grammar g NT Tm S = Inr nfa"
  shows "FINAL_STATE_MARKER \<notin> set NT"
    and "\<exists>tr. add_rules g [] = Inr tr \<and>
              NFA_init (pyset_add FINAL_STATE_MARKER (pyset NT)) (pyset Tm) tr S
                [FINAL_STATE_MARKER] = Inr nfa"
proof -
  from assms show nm: "FINAL_STATE_MARKER \<notin> set NT"
    by (auto simp: build_nfa_from_grammar_def Let_def pyset_def split: if_splits)
  with assms show "\<exists>tr. add_rules g [] = Inr tr \<and>
              NFA_init (pyset_add FINAL_STATE_MARKER (pyset NT)) (pyset Tm) tr S
                [FINAL_STATE_MARKER] = Inr nfa"
    by (auto simp: build_nfa_from_grammar_def Let_def pyset_def split: sum.splits)
qed

section \<open>The scenarios, evaluated\<close>

lemma scenario_1_parse:
  "parse_grammar [str ''S -> aA | b'', str ''A -> b''] [str ''S'', str ''A'']
     [str ''a'', str ''b''] (str ''S'') =
   Inr [(str ''S'', [(Some (str ''a''), Some (str ''A'')), (Some (str ''b''), None)]),
        (str ''A'', [(Some (str ''b''), None)])]"
  by (simp add: parse_grammar_def grammar_append_def str_simps pyset_simps Let_def)

lemma scenario_1_build:
  "build_nfa_from_grammar
     [(str ''S'', [(Some (str ''a''), Some (str ''A'')), (Some (str ''b''), None)]),
      (str ''A'', [(Some (str ''b''), None)])]
     [str ''S'', str ''A''] [str ''a'', str ''b''] (str ''S'') = Inr scenario_1_nfa"
  by (simp add: nfa_simps str_def pyset_simps Let_def)

lemma scenario_1_init:
  "NFA_init [str ''S'', str ''A'', str ''_FINAL_''] [str ''a'', str ''b'']
     [((str ''S'', Some (str ''a'')), [str ''A'']),
      ((str ''S'', Some (str ''b'')), [str ''_FINAL_'']),
      ((str ''A'', Some (str ''b'')), [str ''_FINAL_''])]
     (str ''S'') [str ''_FINAL_''] = Inr scenario_1_nfa"
  by (simp add: nfa_simps str_def pyset_simps Let_def)

lemma scenario_1_runs:
  "accepts (str ''ab'') scenario_1_nfa out = (Inr True, scenario_1_nfa, out)"
  "accepts (str ''b'') scenario_1_nfa out = (Inr True, scenario_1_nfa, out)"
  "accepts (str ''a'') scenario_1_nfa out = (Inr False, scenario_1_nfa, out)"
  "accepts (str []) scenario_1_nfa out = (Inr False, scenario_1_nfa, out)"
  "accepts (str ''aab'') scenario_1_nfa out = (Inr False, scenario_1_nfa, out)"
  by (simp_all add: accepts_simps str_def pyset_simps Let_def)

lemma scenario_1_invalid_symbol:
  "accepts (str ''ac'') scenario_1_nfa utf8_stdout =
     (Inr False, scenario_1_nfa,
      utf8_stdout\<lparr>written := [Warning_symbol_not_in_alphabet (str ''c'') [str ''a'', str ''b'']]\<rparr>)"
  "accepts (str ''aac'') scenario_1_nfa utf8_stdout = (Inr False, scenario_1_nfa, utf8_stdout)"
  "accepts (str ''aa'') scenario_1_nfa utf8_stdout = (Inr False, scenario_1_nfa, utf8_stdout)"
  by (simp_all add: accepts_simps str_def pyset_simps surrogate_def Let_def)

text \<open>
  A lone surrogate as input symbol: the \<open>print\<close> of the warning raises, and so does the
  \<open>print\<close> of \<open>main\<close>.
\<close>

lemma scenario_1_surrogate_raises:
  "accepts [55296] scenario_1_nfa utf8_stdout = (Inl UnicodeEncodeError, scenario_1_nfa, utf8_stdout)"
  "main_check_string [55296] scenario_1_nfa utf8_stdout =
     (Inl UnicodeEncodeError, scenario_1_nfa, utf8_stdout)"
  by (simp_all add: accepts_simps main_check_string_def str_def pyset_simps surrogate_def Let_def)

lemma scenario_2_parse:
  "parse_grammar [str ''S -> epsilon''] [str ''S''] [str ''a''] (str ''S'') =
   Inr [(str ''S'', [(None, None)])]"
  by (simp add: parse_grammar_def grammar_append_def str_simps pyset_simps Let_def)

lemma scenario_2_build:
  "build_nfa_from_grammar [(str ''S'', [(None, None)])] [str ''S''] [str ''a''] (str ''S'') =
   Inr scenario_2_nfa"
  by (simp add: nfa_simps str_def pyset_simps Let_def)

lemma scenario_2_init:
  "NFA_init [str ''S'', str ''_FINAL_''] [str ''a''] [((str ''S'', None), [str ''_FINAL_''])]
     (str ''S'') [str ''_FINAL_''] = Inr scenario_2_nfa"
  by (simp add: nfa_simps str_def pyset_simps Let_def)

lemma scenario_2_runs:
  "accepts (str []) scenario_2_nfa out = (Inr True, scenario_2_nfa, out)"
  "accepts (str ''a'') scenario_2_nfa out = (Inr False, scenario_2_nfa, out)"
  "fst (get_epsilon_closure_set [start_state scenario_2_nfa] scenario_2_nfa) =
     [str ''S'', str ''_FINAL_'']"
  by (simp_all add: accepts_simps str_def pyset_simps Let_def)

lemma dangling_init:
  "NFA_init [str ''S'', str ''F''] [str ''a'']
     [((str ''S'', Some (str ''a'')), [str ''X'']), ((str ''X'', None), [str ''F''])]
     (str ''S'') [str ''F''] = Inr dangling_nfa"
  by (simp add: nfa_simps str_def pyset_simps Let_def)

lemma dangling_accepts: "accepts (str ''a'') dangling_nfa out = (Inr False, dangling_nfa, out)"
  by (simp add: accepts_simps str_def pyset_simps Let_def)

lemma dangling_spec: "spec_accepts dangling_nfa (str ''a'') = True"
proof -
  have s: "str ''S'' \<in> spec_closure dangling_nfa {start_state dangling_nfa}"
    by (simp add: spec_closure_def)
  then have x: "str ''X'' \<in>
      spec_move dangling_nfa (spec_closure dangling_nfa {start_state dangling_nfa}) [97]"
    by (auto simp: spec_move_def str_def)
  have "(str ''X'', str ''F'') \<in> eps_edges (transitions dangling_nfa)"
    by (simp add: eps_edges_def dict_get_def str_def)
  with x have f: "str ''F'' \<in> spec_closure dangling_nfa
      (spec_move dangling_nfa (spec_closure dangling_nfa {start_state dangling_nfa}) [97])"
    unfolding spec_closure_def by blast
  then have ne: "spec_closure dangling_nfa
      (spec_move dangling_nfa (spec_closure dangling_nfa {start_state dangling_nfa}) [97]) \<noteq> {}"
    by blast
  have "str ''F'' \<in> set (accept_states dangling_nfa)" by simp
  with f have "spec_closure dangling_nfa
      (spec_move dangling_nfa (spec_closure dangling_nfa {start_state dangling_nfa}) [97])
        \<inter> set (accept_states dangling_nfa) \<noteq> {}" by blast
  with ne show ?thesis
    unfolding spec_accepts_def by (simp add: str_def del: NFA.simps)
qed

section \<open>The claims\<close>

text \<open>
  Claim C1. With terminals \<open>{a, b}\<close>, non-terminals \<open>{S, A}\<close>, start symbol \<open>S\<close> and the
  rule lines \<open>S -> aA | b\<close> and \<open>A -> b\<close>, \<open>parse_grammar\<close> returns a grammar,
  \<open>build_nfa_from_grammar\<close> returns an automaton for it, and on that automaton
  \<open>accepts\<close> returns \<open>True\<close> for \<open>ab\<close> and \<open>b\<close> and \<open>False\<close> for \<open>a\<close>, the empty string and
  \<open>aab\<close>; it prints nothing and leaves the automaton as it is.
\<close>

theorem C1_scenario_1:
  "\<exists>g nfa.
     parse_grammar [str ''S -> aA | b'', str ''A -> b''] [str ''S'', str ''A'']
       [str ''a'', str ''b''] (str ''S'') = Inr g \<and>
     build_nfa_from_grammar g [str ''S'', str ''A''] [str ''a'', str ''b''] (str ''S'') = Inr nfa \<and>
     (\<forall>out. accepts (str ''ab'') nfa out = (Inr True, nfa, out)) \<and>
     (\<forall>out. accepts (str ''b'') nfa out = (Inr True, nfa, out)) \<and>
     (\<forall>out. accepts (str ''a'') nfa out = (Inr False, nfa, out)) \<and>
     (\<forall>out. accepts (str []) nfa out = (Inr False, nfa, out)) \<and>
     (\<forall>out. accepts (str ''aab'') nfa out = (Inr False, nfa, out))"
  using scenario_1_parse scenario_1_build scenario_1_runs by simp

text \<open>
  Claim C2, amended. For every automaton that \<open>NFA.__init__\<close> has constructed and whose
  transition table leads only to states of the automaton, and for every input string
  whose symbols are all in the alphabet, \<open>accepts\<close> returns what the subset simulation
  of the specification returns: the current set starts as the epsilon closure of the
  start state, each symbol replaces it by the epsilon closure of the states the table
  gives for it, an empty current set rejects at once, and at the end the string is
  accepted when the current set meets the accept states.
\<close>

theorem C2_accepts_is_subset_simulation:
  assumes "NFA_init sts alph trns start accept = Inr nfa"
    and "targets (transitions nfa) \<subseteq> set (states nfa)"
    and "list_all (\<lambda>c. [c] \<in> set (alphabet nfa)) input_string"
  shows "accepts input_string nfa out = (Inr (spec_accepts nfa input_string), nfa, out)"
proof -
  have st: "set [start_state nfa] \<subseteq> set (states nfa)"
    using NFA_init_fields(1,4,6) [OF assms(1)] by (simp add: pyset_def)
  let ?cur = "fst (get_epsilon_closure_set [start_state nfa] nfa)"
  have cur: "set ?cur = spec_closure nfa {start_state nfa}"
    using closure_set_declared [OF assms(1) st] by simp
  have sub: "set ?cur \<subseteq> set (states nfa)"
    unfolding cur using spec_closure_within [OF assms(2)] st by simp
  have "accepts input_string nfa out = accepts_loop input_string ?cur nfa out"
    by (simp add: accepts_def get_epsilon_closure_set_def)
  with accepts_loop_spec [OF assms(1,2,3) sub, of out] cur show ?thesis
    by (simp add: spec_accepts_def)
qed

theorem C2_accepts_is_subset_simulation_witness:
  "\<exists>nfa. NFA_init [str ''S'', str ''A'', str ''_FINAL_''] [str ''a'', str ''b'']
            [((str ''S'', Some (str ''a'')), [str ''A'']),
             ((str ''S'', Some (str ''b'')), [str ''_FINAL_'']),
             ((str ''A'', Some (str ''b'')), [str ''_FINAL_''])]
            (str ''S'') [str ''_FINAL_''] = Inr nfa \<and>
         targets (transitions nfa) \<subseteq> set (states nfa) \<and>
         list_all (\<lambda>c. [c] \<in> set (alphabet nfa)) (str ''ab'') \<and>
         spec_accepts nfa (str ''ab'') = True"
proof -
  have tg: "targets (transitions scenario_1_nfa) \<subseteq> set (states scenario_1_nfa)"
    by (simp add: targets_def)
  have al: "list_all (\<lambda>c. [c] \<in> set (alphabet scenario_1_nfa)) (str ''ab'')"
    by (simp add: str_def)
  from C2_accepts_is_subset_simulation [OF scenario_1_init tg al, of utf8_stdout]
    scenario_1_runs(1) [of utf8_stdout]
  have "spec_accepts scenario_1_nfa (str ''ab'') = True" by simp
  with scenario_1_init tg al show ?thesis by blast
qed

text \<open>
  Claim C2 as stated, for every constructed automaton, fails. The constructor accepts a
  table with \<open>S --a--> X\<close> and \<open>X --epsilon--> F\<close> over the states \<open>{S, F}\<close>: it does not
  look at the destinations. No closure is cached for \<open>X\<close>, so after \<open>a\<close> the current set
  of \<open>accepts\<close> is \<open>{X}\<close>, which is not the epsilon closure \<open>{X, F}\<close>, and \<open>a\<close> is rejected
  where the subset simulation accepts it.
\<close>

theorem C2_undeclared_destination_counterexample:
  "NFA_init [str ''S'', str ''F''] [str ''a'']
     [((str ''S'', Some (str ''a'')), [str ''X'']), ((str ''X'', None), [str ''F''])]
     (str ''S'') [str ''F''] = Inr dangling_nfa \<and>
   str ''a'' \<in> set (alphabet dangling_nfa) \<and>
   accepts (str ''a'') dangling_nfa utf8_stdout = (Inr False, dangling_nfa, utf8_stdout) \<and>
   spec_accepts dangling_nfa (str ''a'') = True"
  using dangling_init dangling_accepts [of utf8_stdout] dangling_spec by simp

text \<open>
  Claim C3. With terminals \<open>{a}\<close>, non-terminals \<open>{S}\<close>, start symbol \<open>S\<close> and the single
  rule line \<open>S -> epsilon\<close>, the automaton that is built accepts the empty string: the
  epsilon closure of the start state, which is all that a run on no symbols computes,
  contains the final marker. It rejects \<open>a\<close>.
\<close>

theorem C3_scenario_2:
  "\<exists>g nfa.
     parse_grammar [str ''S -> epsilon''] [str ''S''] [str ''a''] (str ''S'') = Inr g \<and>
     build_nfa_from_grammar g [str ''S''] [str ''a''] (str ''S'') = Inr nfa \<and>
     FINAL_STATE_MARKER \<in> set (fst (get_epsilon_closure_set [start_state nfa] nfa)) \<and>
     (\<forall>out. accepts (str []) nfa out = (Inr True, nfa, out)) \<and>
     (\<forall>out. accepts (str ''a'') nfa out = (Inr False, nfa, out))"
  using scenario_2_parse scenario_2_build scenario_2_runs
  by (simp add: FINAL_STATE_MARKER_def)

text \<open>
  Claim C4. In a grammar that \<open>parse_grammar\<close> returns, every production of every rule
  has one of the three legal shapes over the declared symbols, and none is
  \<open>(None, next)\<close>. So the loop of \<open>build_nfa_from_grammar\<close> over the productions of such a
  grammar runs to its end, and whatever declarations the builder is given, it does not
  raise the \<open>RuntimeError\<close> of its last branch.
\<close>

theorem C4_parsed_productions_legal:
  assumes "parse_grammar grammar_lines declared_non_terminals declared_terminals
             declared_start_symbol = Inr g"
  shows "list_all (\<lambda>rule. list_all (legal_shape declared_non_terminals declared_terminals)
                     (snd rule)) g \<and>
         (\<forall>rule next_non_terminal.
            rule \<in> set g \<longrightarrow> (None, Some next_non_terminal) \<notin> set (snd rule)) \<and>
         (\<exists>nfa_transitions. add_rules g [] = Inr nfa_transitions) \<and>
         (\<forall>non_terminals terminals start_symbol m.
            build_nfa_from_grammar g non_terminals terminals start_symbol \<noteq> Inl (RuntimeError m))"
proof -
  from parse_grammar_legal(1) [OF assms]
  have legal: "legal_grammar declared_non_terminals declared_terminals g" .
  have none: "(None, Some n) \<notin> set (snd rule)" if "rule \<in> set g" for rule n
  proof
    assume "(None, Some n) \<in> set (snd rule)"
    moreover from legal that
    have "\<forall>p\<in>set (snd rule). legal_shape declared_non_terminals declared_terminals p"
      by (simp add: legal_grammar_def list_all_iff)
    ultimately have "legal_shape declared_non_terminals declared_terminals (None, Some n)"
      by blast
    then show False by simp
  qed
  have build: "build_nfa_from_grammar g nts ts st \<noteq> Inl (RuntimeError m)" for nts ts st m
  proof
    assume b: "build_nfa_from_grammar g nts ts st = Inl (RuntimeError m)"
    from add_rules_legal [OF legal, of "[]"] obtain tr where tr: "add_rules g [] = Inr tr" by blast
    from b tr have "\<exists>sts. NFA_init sts (pyset ts) tr st [FINAL_STATE_MARKER] = Inl (RuntimeError m)"
      by (auto simp: build_nfa_from_grammar_def Let_def split: if_splits)
    then show False using NFA_init_ValueError by blast
  qed
  from add_rules_legal [OF legal, of "[]"]
  have rules: "\<exists>nfa_transitions. add_rules g [] = Inr nfa_transitions" by blast
  from legal none rules build show ?thesis by (simp add: legal_grammar_def)
qed

theorem C4_parsed_productions_legal_witness:
  "\<exists>g. parse_grammar [str ''S -> aA | b'', str ''A -> b''] [str ''S'', str ''A'']
          [str ''a'', str ''b''] (str ''S'') = Inr g \<and>
       list_all (\<lambda>rule. list_all (legal_shape [str ''S'', str ''A''] [str ''a'', str ''b''])
                          (snd rule)) g \<and>
       build_nfa_from_grammar g [str ''S'', str ''A''] [str ''a'', str ''b''] (str ''S'') \<noteq>
         Inl (RuntimeError (Unexpected_parsed_production None (Some (str ''A'')) (str ''S'')))"
  using C4_parsed_productions_legal [OF scenario_1_parse] scenario_1_parse by blast

text \<open>
  Claim C5. For every state \<open>s\<close> of an automaton that \<open>NFA.__init__\<close> has constructed, the
  cache holds a closure \<open>c\<close> for \<open>s\<close>; \<open>c\<close> contains \<open>s\<close>; \<open>c\<close> is \<open>{s}\<close> when \<open>s\<close> has no
  outgoing epsilon edge; \<open>c\<close> is closed under epsilon edges, and the epsilon closure of
  the set \<open>c\<close> (\<open>_get_epsilon_closure_set\<close>) is \<open>c\<close> again; computing the closure of \<open>s\<close>
  once more, and then again, returns \<open>c\<close> and leaves the automaton as it is.
\<close>

theorem C5_epsilon_closure_cached_and_closed:
  assumes "NFA_init sts alph trns start accept = Inr nfa" and "s \<in> set (states nfa)"
  shows "\<exists>c. map_of (epsilon_closures nfa) s = Some c \<and> s \<in> set c \<and>
             (set (dict_get (transitions nfa) (s, None) []) = {} \<longrightarrow> set c = {s}) \<and>
             (\<Union>t\<in>set c. set (dict_get (transitions nfa) (t, None) [])) \<subseteq> set c \<and>
             set (fst (get_epsilon_closure_set c nfa)) = set c \<and>
             compute_epsilon_closure s nfa = (c, nfa) \<and>
             compute_epsilon_closure s (snd (compute_epsilon_closure s nfa)) = (c, nfa)"
proof -
  let ?E = "eps_edges (transitions nfa)"
  let ?c = "bfs_loop (transitions nfa) ([s], [s], [s])"
  from assms(2) NFA_init_fields(1,3,8) [OF assms(1)]
  have cache: "map_of (epsilon_closures nfa) s = Some ?c" by (simp add: pyset_def)
  have c: "set ?c = ?E\<^sup>* `` {s}" by (rule closure_reach)
  have mem: "s \<in> set ?c" by (simp add: c)
  have single: "set ?c = {s}" if "set (dict_get (transitions nfa) (s, None) []) = {}"
    using that by (simp add: bfs_loop.simps)
  have closed: "(\<Union>t\<in>set ?c. set (dict_get (transitions nfa) (t, None) [])) \<subseteq> set ?c"
  proof
    fix u assume "u \<in> (\<Union>t\<in>set ?c. set (dict_get (transitions nfa) (t, None) []))"
    then obtain t where "t \<in> set ?c" "(t, u) \<in> ?E" by (auto simp: eps_edges_def)
    then show "u \<in> set ?c" unfolding c by (auto intro: rtrancl_into_rtrancl)
  qed
  have again: "set (fst (get_epsilon_closure_set ?c nfa)) = set ?c"
  proof
    show "set (fst (get_epsilon_closure_set ?c nfa)) \<subseteq> set ?c"
    proof
      fix u assume "u \<in> set (fst (get_epsilon_closure_set ?c nfa))"
      then obtain t where t: "t \<in> set ?c" and u: "u \<in> set (dict_get (epsilon_closures nfa) t [t])"
        by (auto simp: set_get_epsilon_closure_set)
      from u have "u = t \<or> (t, u) \<in> ?E\<^sup>*"
        by (simp add: cached_closure [OF assms(1)] split: if_splits)
      with t show "u \<in> set ?c" unfolding c by (auto intro: rtrancl_trans)
    qed
    show "set ?c \<subseteq> set (fst (get_epsilon_closure_set ?c nfa))"
    proof
      fix u assume "u \<in> set ?c"
      with cache have "u \<in> set (dict_get (epsilon_closures nfa) s [s])" by (simp add: dict_get_def)
      with mem show "u \<in> set (fst (get_epsilon_closure_set ?c nfa))"
        unfolding set_get_epsilon_closure_set by blast
    qed
  qed
  have twice: "compute_epsilon_closure s nfa = (?c, nfa)"
    using cache by (simp add: compute_epsilon_closure_def)
  show ?thesis
    using cache mem single closed again twice by (intro exI [of _ ?c]) simp
qed

theorem C5_epsilon_closure_witness:
  "NFA_init [str ''S'', str ''_FINAL_''] [str ''a''] [((str ''S'', None), [str ''_FINAL_''])]
     (str ''S'') [str ''_FINAL_''] = Inr scenario_2_nfa \<and>
   str ''S'' \<in> set (states scenario_2_nfa) \<and>
   (\<exists>c. map_of (epsilon_closures scenario_2_nfa) (str ''S'') = Some c \<and> str ''S'' \<in> set c \<and>
        set (fst (get_epsilon_closure_set c scenario_2_nfa)) = set c \<and>
        compute_epsilon_closure (str ''S'') scenario_2_nfa = (c, scenario_2_nfa))"
proof -
  have mem: "str ''S'' \<in> set (states scenario_2_nfa)" by simp
  from C5_epsilon_closure_cached_and_closed [OF scenario_2_init mem] scenario_2_init mem
  show ?thesis by blast
qed

text \<open>
  Claim C6. When \<open>build_nfa_from_grammar\<close> returns an automaton, its start state is the
  declared start symbol, its accept states are the final marker alone, and its states
  are the declared non-terminals together with the marker, which is not one of them.
  When a declared non-terminal is the marker, the builder raises \<open>ValueError\<close>.
\<close>

theorem C6_start_accept_states:
  "(build_nfa_from_grammar grammar_dict non_terminals terminals start_symbol = Inr nfa \<longrightarrow>
      start_state nfa = start_symbol \<and>
      accept_states nfa = [FINAL_STATE_MARKER] \<and>
      set (states nfa) = set non_terminals \<union> {FINAL_STATE_MARKER} \<and>
      FINAL_STATE_MARKER \<notin> set non_terminals) \<and>
   (FINAL_STATE_MARKER \<in> set non_terminals \<longrightarrow>
      build_nfa_from_grammar grammar_dict non_terminals terminals start_symbol =
        Inl (ValueError Final_marker_clash))"
proof (intro conjI impI)
  assume b: "build_nfa_from_grammar grammar_dict non_terminals terminals start_symbol = Inr nfa"
  then have nm: "FINAL_STATE_MARKER \<notin> set non_terminals"
    by (auto simp: build_nfa_from_grammar_def Let_def pyset_def split: if_splits)
  with b obtain tr where
    init: "NFA_init (pyset_add FINAL_STATE_MARKER (pyset non_terminals)) (pyset terminals) tr
             start_symbol [FINAL_STATE_MARKER] = Inr nfa"
    by (auto simp: build_nfa_from_grammar_def Let_def pyset_def split: sum.splits)
  from NFA_init_fields(4) [OF init] show "start_state nfa = start_symbol" .
  from NFA_init_fields(5) [OF init] show "accept_states nfa = [FINAL_STATE_MARKER]"
    by (simp add: pyset_def)
  from NFA_init_fields(1) [OF init] nm
  show "set (states nfa) = set non_terminals \<union> {FINAL_STATE_MARKER}"
    by (auto simp: pyset_def pyset_add_def)
  show "FINAL_STATE_MARKER \<notin> set non_terminals" by (rule nm)
next
  assume "FINAL_STATE_MARKER \<in> set non_terminals"
  then show "build_nfa_from_grammar grammar_dict non_terminals terminals start_symbol =
        Inl (ValueError Final_marker_clash)"
    by (simp add: build_nfa_from_grammar_def Let_def pyset_def)
qed

theorem C6_start_accept_states_witness:
  "(\<exists>nfa. build_nfa_from_grammar [(str ''S'', [(None, None)])] [str ''S''] [str ''a''] (str ''S'')
            = Inr nfa \<and>
          start_state nfa = str ''S'' \<and> accept_states nfa = [FINAL_STATE_MARKER] \<and>
          set (states nfa) = {str ''S'', FINAL_STATE_MARKER}) \<and>
   FINAL_STATE_MARKER \<in> set [str ''S'', str ''_FINAL_''] \<and>
   build_nfa_from_grammar [] [str ''S'', str ''_FINAL_''] [str ''a''] (str ''S'') =
     Inl (ValueError Final_marker_clash)"
proof -
  have m: "FINAL_STATE_MARKER \<in> set [str ''S'', str ''_FINAL_'']"
    by (simp add: FINAL_STATE_MARKER_def)
  from C6_start_accept_states [of "[(str ''S'', [(None, None)])]" "[str ''S'']" "[str ''a'']"
         "str ''S''" scenario_2_nfa] scenario_2_build
  have ok: "start_state scenario_2_nfa = str ''S'' \<and>
            accept_states scenario_2_nfa = [FINAL_STATE_MARKER] \<and>
            set (states scenario_2_nfa) = {str ''S'', FINAL_STATE_MARKER}"
    by auto
  from C6_start_accept_states [of "[]" "[str ''S'', str ''_FINAL_'']" "[str ''a'']"
         "str ''S''" scenario_2_nfa] m
  have clash: "build_nfa_from_grammar [] [str ''S'', str ''_FINAL_''] [str ''a''] (str ''S'') =
     Inl (ValueError Final_marker_clash)"
    by blast
  from ok clash m scenario_2_build show ?thesis by blast
qed

text \<open>
  Claim C7. When the declared non-terminals are empty, or the start symbol is not one
  of them, or terminals and non-terminals overlap, \<open>parse_grammar\<close> raises the
  \<open>ValueError\<close> of the first of these checks that fails, whatever the rule lines are: no
  line is looked at. With terminals \<open>{a}\<close> and non-terminals \<open>{a}\<close> it raises for every
  start symbol and all rule lines.
\<close>

theorem C7_declarations_checked_first:
  "(set declared_non_terminals = {} \<or> declared_start_symbol \<notin> set declared_non_terminals \<or>
    set declared_terminals \<inter> set declared_non_terminals \<noteq> {} \<longrightarrow>
      parse_grammar grammar_lines declared_non_terminals declared_terminals declared_start_symbol =
        Inl (ValueError
          (if set declared_non_terminals = {} then Non_terminal_set_empty
           else if declared_start_symbol \<notin> set declared_non_terminals
           then Start_symbol_not_declared declared_start_symbol
           else Terminals_non_terminals_overlap
                  (intersection declared_terminals declared_non_terminals)))) \<and>
   parse_grammar grammar_lines [str ''a''] [str ''a''] declared_start_symbol =
     Inl (ValueError
       (if declared_start_symbol = str ''a'' then Terminals_non_terminals_overlap [str ''a'']
        else Start_symbol_not_declared declared_start_symbol))"
  by (auto simp: parse_grammar_def isdisjoint_def intersection_def filter_empty_conv)

theorem C7_declarations_checked_first_witness:
  "parse_grammar [str ''not a rule''] [] [str ''a''] (str ''S'') =
     Inl (ValueError Non_terminal_set_empty) \<and>
   parse_grammar [str ''not a rule''] [str ''A''] [str ''a''] (str ''S'') =
     Inl (ValueError (Start_symbol_not_declared (str ''S''))) \<and>
   parse_grammar [str ''not a rule''] [str ''a''] [str ''a''] (str ''a'') =
     Inl (ValueError (Terminals_non_terminals_overlap [str ''a'']))"
  using C7_declarations_checked_first [of "[]" "str ''S''" "[str ''a'']" "[str ''not a rule'']"]
    C7_declarations_checked_first [of "[str ''A'']" "str ''S''" "[str ''a'']" "[str ''not a rule'']"]
    C7_declarations_checked_first [of "[str ''a'']" "str ''a''" "[str ''a'']" "[str ''not a rule'']"]
  by (simp add: str_def intersection_def)

text \<open>
  Claim C8, amended. Let an input string have a symbol outside the alphabet, and let
  \<open>c\<close> be the first one. When standard output can encode the warning for \<open>c\<close>, \<open>accepts\<close>
  returns \<open>False\<close> and raises nothing. If the symbols before \<open>c\<close> have emptied the current
  set, it has returned through the ordinary dead end and has printed nothing.
  Otherwise it has printed the warning for \<open>c\<close>, and nothing else. The value returned is
  the \<open>False\<close> of an ordinary non-acceptance; what tells the two apart is the warning,
  since on a string over the alphabet \<open>accepts\<close> returns a boolean and prints nothing.
  \<open>main\<close> does not call \<open>accepts\<close> on such a string: it finds the invalid symbols itself and,
  when standard output can encode the line, prints them.
\<close>

theorem C8_invalid_symbol_rejection:
  assumes "\<not> list_all (\<lambda>c. [c] \<in> set (alphabet nfa)) input_string"
  shows "\<exists>pre c post.
           input_string = pre @ c # post \<and>
           list_all (\<lambda>c. [c] \<in> set (alphabet nfa)) pre \<and> [c] \<notin> set (alphabet nfa) \<and>
           (encodes out (Warning_symbol_not_in_alphabet [c] (alphabet nfa)) \<longrightarrow>
              accepts input_string nfa out =
                (case simulate nfa (fst (get_epsilon_closure_set [start_state nfa] nfa)) pre of
                   None \<Rightarrow> (Inr False, nfa, out)
                 | Some current_states \<Rightarrow>
                     (Inr False, nfa,
                      out\<lparr>written :=
                            written out @ [Warning_symbol_not_in_alphabet [c] (alphabet nfa)]\<rparr>))) \<and>
           (\<forall>w. list_all (\<lambda>c. [c] \<in> set (alphabet nfa)) w \<longrightarrow>
                (\<exists>b. accepts w nfa out = (Inr b, nfa, out))) \<and>
           (\<exists>invalid_chars.
              set invalid_chars = {[c] |c. c \<in> set input_string \<and> [c] \<notin> set (alphabet nfa)} \<and>
              (encodes out (String_rejected_invalid_symbols input_string invalid_chars) \<longrightarrow>
                 main_check_string input_string nfa out =
                   (Inr (), nfa,
                    out\<lparr>written :=
                          written out @
                          [String_rejected_invalid_symbols input_string invalid_chars]\<rparr>)))"
proof -
  from first_invalid [OF assms] obtain pre c post where w: "input_string = pre @ c # post"
    and pre: "list_all (\<lambda>c. [c] \<in> set (alphabet nfa)) pre" and c: "[c] \<notin> set (alphabet nfa)"
    by blast
  have a: "accepts input_string nfa out =
             (case simulate nfa (fst (get_epsilon_closure_set [start_state nfa] nfa)) pre of
                None \<Rightarrow> (Inr False, nfa, out)
              | Some current_states \<Rightarrow>
                  (Inr False, nfa,
                   out\<lparr>written :=
                         written out @ [Warning_symbol_not_in_alphabet [c] (alphabet nfa)]\<rparr>))"
    if "encodes out (Warning_symbol_not_in_alphabet [c] (alphabet nfa))"
    using that accepts_loop_first_invalid [OF pre c, of post _ out]
    by (simp add: accepts_def get_epsilon_closure_set_def w split: option.splits)
  have o: "\<exists>b. accepts w' nfa out = (Inr b, nfa, out)"
    if "list_all (\<lambda>c. [c] \<in> set (alphabet nfa)) w'" for w'
    using accepts_loop_alphabet [OF that, of _ out]
    by (simp add: accepts_def get_epsilon_closure_set_def)
  let ?cs = "pyset (map (\<lambda>char. [char])
                 (filter (\<lambda>char. [char] \<notin> set (alphabet nfa)) input_string))"
  have cs: "set ?cs = {[c] |c. c \<in> set input_string \<and> [c] \<notin> set (alphabet nfa)}"
    by (auto simp: pyset_def)
  have m: "main_check_string input_string nfa out =
             (Inr (), nfa,
              out\<lparr>written := written out @ [String_rejected_invalid_symbols input_string ?cs]\<rparr>)"
    if "encodes out (String_rejected_invalid_symbols input_string ?cs)"
    using that assms by (simp add: main_check_string_def print_def)
  from w pre c a o cs m show ?thesis by blast
qed

theorem C8_invalid_symbol_rejection_witness:
  "\<not> list_all (\<lambda>c. [c] \<in> set (alphabet scenario_1_nfa)) (str ''ac'') \<and>
   encodes utf8_stdout (Warning_symbol_not_in_alphabet (str ''c'') (alphabet scenario_1_nfa)) \<and>
   accepts (str ''ac'') scenario_1_nfa utf8_stdout =
     (Inr False, scenario_1_nfa,
      utf8_stdout\<lparr>written := [Warning_symbol_not_in_alphabet (str ''c'') [str ''a'', str ''b'']]\<rparr>) \<and>
   (\<exists>b. accepts (str ''a'') scenario_1_nfa utf8_stdout = (Inr b, scenario_1_nfa, utf8_stdout))"
proof -
  have h: "\<not> list_all (\<lambda>c. [c] \<in> set (alphabet scenario_1_nfa)) (str ''ac'')"
    by (simp add: str_def)
  have e: "encodes utf8_stdout
             (Warning_symbol_not_in_alphabet (str ''c'') (alphabet scenario_1_nfa))"
    by (simp add: str_def surrogate_def)
  have va: "list_all (\<lambda>c. [c] \<in> set (alphabet scenario_1_nfa)) (str ''a'')"
    by (simp add: str_def)
  from C8_invalid_symbol_rejection [OF h, of utf8_stdout] va
  have "\<exists>b. accepts (str ''a'') scenario_1_nfa utf8_stdout = (Inr b, scenario_1_nfa, utf8_stdout)"
    by blast
  with h e scenario_1_invalid_symbol(1) show ?thesis by blast
qed

text \<open>
  Claim C8 as stated fails. On the automaton of scenario 1 the string \<open>aac\<close> has the
  symbol \<open>c\<close> outside the alphabet, but the second \<open>a\<close> empties the current set: \<open>accepts\<close>
  returns \<open>False\<close> from the dead end and prints no warning, exactly as it does on \<open>aa\<close>, so
  that nothing tells this rejection from an ordinary one. And on a lone surrogate
  \<open>accepts\<close> raises, because a utf-8 standard output cannot encode the warning.
\<close>

theorem C8_indistinguishable_counterexample:
  "str ''c'' \<notin> set (alphabet scenario_1_nfa) \<and>
   accepts (str ''aac'') scenario_1_nfa utf8_stdout = (Inr False, scenario_1_nfa, utf8_stdout) \<and>
   accepts (str ''aa'') scenario_1_nfa utf8_stdout = (Inr False, scenario_1_nfa, utf8_stdout) \<and>
   [55296] \<notin> set (alphabet scenario_1_nfa) \<and>
   accepts [55296] scenario_1_nfa utf8_stdout =
     (Inl UnicodeEncodeError, scenario_1_nfa, utf8_stdout)"
  using scenario_1_invalid_symbol(2,3) scenario_1_surrogate_raises(1) by (simp add: str_def)

text \<open>
  Claim C9. A call of \<open>accepts\<close> leaves the automaton as it was, in every field, whether
  it returns or its \<open>print\<close> raises; a second call with the same string, on the automaton
  and the standard output that the first call left behind, has the same outcome: the
  same boolean, or the same exception. On a string over the alphabet the outcome is a
  boolean.
\<close>

theorem C9_accepts_pure:
  "\<exists>r out'.
     accepts input_string nfa out = (r, nfa, out') \<and>
     (\<exists>out''. accepts input_string (fst (snd (accepts input_string nfa out))) out' = (r, nfa, out'')) \<and>
     states (fst (snd (accepts input_string nfa out))) = states nfa \<and>
     alphabet (fst (snd (accepts input_string nfa out))) = alphabet nfa \<and>
     transitions (fst (snd (accepts input_string nfa out))) = transitions nfa \<and>
     start_state (fst (snd (accepts input_string nfa out))) = start_state nfa \<and>
     accept_states (fst (snd (accepts input_string nfa out))) = accept_states nfa \<and>
     epsilon_closures (fst (snd (accepts input_string nfa out))) = epsilon_closures nfa \<and>
     (list_all (\<lambda>c. [c] \<in> set (alphabet nfa)) input_string \<longrightarrow> (\<exists>b. r = Inr b) \<and> out' = out)"
proof -
  let ?cur = "fst (get_epsilon_closure_set [start_state nfa] nfa)"
  have acc: "accepts input_string nfa out1 = accepts_loop input_string ?cur nfa out1" for out1
    by (simp add: accepts_def get_epsilon_closure_set_def)
  from accepts_loop_frame [of input_string ?cur nfa out] obtain r out' where
    1: "accepts input_string nfa out = (r, nfa, out')" and e: "encodes out' = encodes out"
    and 2: "\<forall>out2. encodes out2 = encodes out \<longrightarrow>
              (\<exists>out2'. accepts input_string nfa out2 = (r, nfa, out2'))"
    unfolding acc by blast
  from 2 e obtain out'' where 3: "accepts input_string nfa out' = (r, nfa, out'')" by blast
  have 4: "(\<exists>b. r = Inr b) \<and> out' = out"
    if "list_all (\<lambda>c. [c] \<in> set (alphabet nfa)) input_string"
    using accepts_loop_alphabet [OF that, of ?cur out] 1 unfolding acc by simp
  from 1 3 4 show ?thesis by simp
qed

theorem C9_accepts_pure_witness:
  "list_all (\<lambda>c. [c] \<in> set (alphabet scenario_1_nfa)) (str ''ab'') \<and>
   (\<exists>b. accepts (str ''ab'') scenario_1_nfa utf8_stdout = (Inr b, scenario_1_nfa, utf8_stdout))"
proof -
  have va: "list_all (\<lambda>c. [c] \<in> set (alphabet scenario_1_nfa)) (str ''ab'')"
    by (simp add: str_def)
  from C9_accepts_pure [of "str ''ab''" scenario_1_nfa utf8_stdout] obtain r out' where
    1: "accepts (str ''ab'') scenario_1_nfa utf8_stdout = (r, scenario_1_nfa, out')"
    and 2: "list_all (\<lambda>c. [c] \<in> set (alphabet scenario_1_nfa)) (str ''ab'') \<longrightarrow>
              (\<exists>b. r = Inr b) \<and> out' = utf8_stdout"
    by blast
  from 1 2 va show ?thesis by blast
qed

text \<open>
  Claim C10. In the automaton that \<open>build_nfa_from_grammar\<close> builds from a grammar that
  \<open>parse_grammar\<close> returned for the same declarations, every destination in the
  transition table is a state: a declared non-terminal or the final marker. Hence the
  cached closure of every state, the closure of the start state and the current set
  after every step of the simulation stay within the states. The constructor itself
  does not check this: it accepts a table that leads to an undeclared state.
\<close>

theorem C10_destinations_are_states:
  assumes "parse_grammar grammar_lines non_terminals terminals start_symbol = Inr g"
    and "build_nfa_from_grammar g non_terminals terminals start_symbol = Inr nfa"
  shows "targets (transitions nfa) \<subseteq> set (states nfa) \<and>
         set (states nfa) = set non_terminals \<union> {FINAL_STATE_MARKER} \<and>
         (\<forall>s\<in>set (states nfa). set (dict_get (epsilon_closures nfa) s [s]) \<subseteq> set (states nfa)) \<and>
         set (fst (get_epsilon_closure_set [start_state nfa] nfa)) \<subseteq> set (states nfa) \<and>
         (\<forall>current_states symbol.
            set current_states \<subseteq> set (states nfa) \<longrightarrow>
            set (fst (get_epsilon_closure_set (next_states current_states symbol nfa) nfa))
              \<subseteq> set (states nfa)) \<and>
         (\<exists>nfa'. NFA_init [str ''S'', str ''F''] [str ''a'']
                   [((str ''S'', Some (str ''a'')), [str ''X'']), ((str ''X'', None), [str ''F''])]
                   (str ''S'') [str ''F''] = Inr nfa' \<and>
                 \<not> targets (transitions nfa') \<subseteq> set (states nfa'))"
proof -
  from build_nfa_unfold [OF assms(2)] obtain tr where
    nm: "FINAL_STATE_MARKER \<notin> set non_terminals" and tr: "add_rules g [] = Inr tr"
    and init: "NFA_init (pyset_add FINAL_STATE_MARKER (pyset non_terminals)) (pyset terminals) tr
                 start_symbol [FINAL_STATE_MARKER] = Inr nfa"
    by blast
  have sts: "set (states nfa) = set non_terminals \<union> {FINAL_STATE_MARKER}"
    using NFA_init_fields(1) [OF init] by (auto simp: pyset_def pyset_add_def)
  from add_rules_legal [OF parse_grammar_legal(1) [OF assms(1)], of "[]"] tr
  have "targets tr \<subseteq> set non_terminals \<union> {FINAL_STATE_MARKER}"
    by (auto simp: targets_def)
  with sts NFA_init_fields(3) [OF init]
  have tg: "targets (transitions nfa) \<subseteq> set (states nfa)" by simp
  have cl: "set (fst (get_epsilon_closure_set X nfa)) \<subseteq> set (states nfa)"
    if "set X \<subseteq> set (states nfa)" for X
    using closure_set_declared [OF init that] spec_closure_within [OF tg that] by simp
  have one: "set (dict_get (epsilon_closures nfa) s [s]) \<subseteq> set (states nfa)"
    if "s \<in> set (states nfa)" for s
    using cl [of "[s]"] that by (simp add: set_get_epsilon_closure_set)
  have start: "set (fst (get_epsilon_closure_set [start_state nfa] nfa)) \<subseteq> set (states nfa)"
    using NFA_init_fields(1,4,6) [OF init] by (intro cl) (simp add: pyset_def)
  have step: "set (fst (get_epsilon_closure_set (next_states cur a nfa) nfa)) \<subseteq> set (states nfa)"
    for cur a
    using spec_move_targets [of nfa "set cur" a] tg
    by (intro cl) (simp add: set_next_states_spec)
  have dangling: "\<not> targets (transitions dangling_nfa) \<subseteq> set (states dangling_nfa)"
    by (simp add: targets_def str_def)
  from tg sts one start step dangling_init dangling show ?thesis by blast
qed

theorem C10_destinations_are_states_witness:
  "\<exists>g nfa.
     parse_grammar [str ''S -> aA | b'', str ''A -> b''] [str ''S'', str ''A'']
       [str ''a'', str ''b''] (str ''S'') = Inr g \<and>
     build_nfa_from_grammar g [str ''S'', str ''A''] [str ''a'', str ''b''] (str ''S'') = Inr nfa \<and>
     targets (transitions nfa) \<subseteq> set (states nfa)"
  using C10_destinations_are_states [OF scenario_1_parse scenario_1_build] scenario_1_parse scenario_1_build
  by blast

end
